theory Spec2Isabelle
  imports Complex_Main
begin

section \<open>Numbers and strings of the host language\<close>

text \<open>
  The client is TypeScript. Offsets, limits and totals are whole numbers there, modelled as
  \<^typ>\<open>int\<close>; a value that may be \<open>undefined\<close> is an \<^typ>\<open>'a option\<close>. A division by
  zero does not raise in the source, it yields a non-finite number, so the two derived page
  numbers live in the type \<open>number\<close> below.

  The source computes in double precision, which is exact on the safe integers (those of
  magnitude at most \<open>2^53 - 1\<close>) and rounds beyond them; the same holds for the decimal
  notation a number is printed in. The arithmetic and the printing below are those of the
  integers, so they are the program's only where the numbers involved are safe integers, and
  every property that rests on them says so in its hypotheses.
\<close>

definition safe_integer :: "int \<Rightarrow> bool" where
  \<comment> \<open>\<open>Number.isSafeInteger\<close> on a whole number\<close>
  "safe_integer n = (\<bar>n\<bar> \<le> 9007199254740991)"

datatype number = Finite int | Infinity | NegInfinity | NaN

definition divide_nonfinite :: "int \<Rightarrow> number" where
  \<comment> \<open>\<open>a / 0\<close>: the sign of the numerator decides, \<open>0 / 0\<close> is not a number\<close>
  "divide_nonfinite a = (if 0 < a then Infinity else if a < 0 then NegInfinity else NaN)"

definition Math_floor_divide :: "int \<Rightarrow> int \<Rightarrow> number" where
  \<comment> \<open>\<open>Math.floor(a / b)\<close>\<close>
  "Math_floor_divide a b =
     (if b = 0 then divide_nonfinite a else Finite \<lfloor>real_of_int a / real_of_int b\<rfloor>)"

definition Math_ceil_divide :: "int \<Rightarrow> int \<Rightarrow> number" where
  \<comment> \<open>\<open>Math.ceil(a / b)\<close>\<close>
  "Math_ceil_divide a b =
     (if b = 0 then divide_nonfinite a else Finite \<lceil>real_of_int a / real_of_int b\<rceil>)"

fun plus_number :: "number \<Rightarrow> int \<Rightarrow> number" where
  "plus_number (Finite a) b = Finite (a + b)"
| "plus_number Infinity b = Infinity"
| "plus_number NegInfinity b = NegInfinity"
| "plus_number NaN b = NaN"

definition digit :: "nat \<Rightarrow> char" where
  "digit d = ''0123456789'' ! d"

fun decimal :: "nat \<Rightarrow> string" where
  "decimal n = (if 10 \<le> n then decimal (n div 10) @ [digit (n mod 10)] else [digit n])"

definition string_of_number :: "int \<Rightarrow> string" where
  \<comment> \<open>the decimal notation of a whole number, as a safe integer is printed\<close>
  "string_of_number i = (if 0 \<le> i then decimal (nat i) else CHR ''-'' # decimal (nat (- i)))"

definition template :: "int option \<Rightarrow> string" where
  \<comment> \<open>what a template literal prints for a number that may be \<open>undefined\<close>\<close>
  "template v = (case v of None \<Rightarrow> ''undefined'' | Some i \<Rightarrow> string_of_number i)"

definition greater_than :: "int \<Rightarrow> int option \<Rightarrow> bool" where
  \<comment> \<open>\<open>a > b\<close> where \<open>b\<close> may be \<open>undefined\<close>: every comparison with \<open>undefined\<close> is false\<close>
  "greater_than a b = (case b of None \<Rightarrow> False | Some m \<Rightarrow> m < a)"

definition or_default :: "int option \<Rightarrow> int \<Rightarrow> int" where
  \<comment> \<open>\<open>v || d\<close> on an optional number: \<open>undefined\<close> and \<open>0\<close> are both falsy\<close>
  "or_default v d = (case v of None \<Rightarrow> d | Some n \<Rightarrow> if n = 0 then d else n)"

section \<open>Pagination helper\<close>

record PaginationInfo =
  currentPage :: number
  pageSize :: int
  totalResults :: int
  totalPages :: number
  hasMore :: bool
  hasPrevious :: bool
  nextOffset :: "int option"
  previousOffset :: "int option"

definition getPaginationInfo :: "int \<Rightarrow> int \<Rightarrow> int \<Rightarrow> bool \<Rightarrow> PaginationInfo" where
  "getPaginationInfo offset limit total' more' =
     (let currentPage = plus_number (Math_floor_divide offset limit) 1;
          totalPages = Math_ceil_divide total' limit;
          hasMore = more';
          hasPrevious = (0 < offset)
      in \<lparr>currentPage = currentPage,
          pageSize = limit,
          totalResults = total',
          totalPages = totalPages,
          hasMore = hasMore,
          hasPrevious = hasPrevious,
          nextOffset = (if hasMore then Some (offset + limit) else None),
          previousOffset = (if hasPrevious then Some (max 0 (offset - limit)) else None)\<rparr>)"

section \<open>Requests, responses and the injected transport\<close>

type_synonym NameType = string
type_synonym UInt64Type = int

type_synonym transport_error = string

datatype error = Error string | Transport transport_error

text \<open>
  Parameter values as they are put into the parameter object: a name, a 64-bit unsigned
  integer, a 32-bit signed integer, and strings and booleans passed through as they are.
  \<open>Name_from\<close> stands for \<open>Name.from\<close> of the wire library applied to the caller's string.

  \<open>UInt64_from\<close> and \<open>Int32_from\<close> are \<open>UInt64.from\<close> and \<open>Int32.from\<close> of the wire
  library, which is not part of this client: called with one argument they throw for a number
  outside the range of the type and wrap a number inside it. The message is the one the
  library gives for a safe integer; no property below depends on it but the one concrete run
  that shows an overflow.
\<close>

datatype wire = Name_from NameType | UInt64 int | Int32 int | String string | Boolean bool

definition in_int32 :: "int \<Rightarrow> bool" where
  "in_int32 v = (- 2147483648 \<le> v \<and> v \<le> 2147483647)"

definition in_uint64 :: "int \<Rightarrow> bool" where
  "in_uint64 v = (0 \<le> v \<and> v \<le> 18446744073709551615)"

definition Int32_from :: "int \<Rightarrow> error + wire" where
  "Int32_from v =
     (if 2147483647 < v
      then Inl (Error (''Number '' @ string_of_number v @ '' overflows int32''))
      else if v < - 2147483648
      then Inl (Error (''Number '' @ string_of_number v @ '' underflows int32''))
      else Inr (Int32 v))"

definition UInt64_from :: "UInt64Type \<Rightarrow> error + wire" where
  "UInt64_from v =
     (if 18446744073709551615 < v
      then Inl (Error (''Number '' @ string_of_number v @ '' overflows uint64''))
      else if v < 0
      then Inl (Error (''Number '' @ string_of_number v @ '' underflows uint64''))
      else Inr (UInt64 v))"

record request =
  path :: string
  params :: "string \<rightharpoonup> wire"

record ServiceStatus =
  head_block_num :: "int option"
  last_irreversible_block_num :: "int option"
  chain_id :: "string option"
  server_version :: "string option"
  accepting_http :: "bool option"
  database_size :: "int option"
  database_size_mb :: "int option"
  last_account_action_seq :: "int option"
  synced :: "bool option"
  max_proposal_results :: "int option"
  max_approval_results :: "int option"

text \<open>
  A decoded response: the status object, or the payload of another endpoint, which the
  client hands back without looking at it.
\<close>

datatype response = GetStatusResponse ServiceStatus | Payload string

fun max_proposal_results_of :: "response \<Rightarrow> int option" where
  "max_proposal_results_of (GetStatusResponse st) = max_proposal_results st"
| "max_proposal_results_of (Payload p) = None"

fun max_approval_results_of :: "response \<Rightarrow> int option" where
  "max_approval_results_of (GetStatusResponse st) = max_approval_results st"
| "max_approval_results_of (Payload p) = None"

text \<open>
  The transport is a collaborator: what it answers may depend on the request and on all
  requests it has received before.
\<close>

type_synonym APIClient = "request list \<Rightarrow> request \<Rightarrow> transport_error + response"

section \<open>Option bags\<close>

record GetProposalOptions =
  globalseq :: "UInt64Type option"
  version_history :: "bool option"

record GetProposalHistoryOptions =
  status :: "string option"
  limit :: "int option"
  offset :: "int option"

record GetProposalsOptions =
  proposer :: "NameType option"
  status :: "string option"
  limit :: "int option"
  offset :: "int option"

record GetActiveOptions =
  limit :: "int option"
  offset :: "int option"
  sort_by :: "string option"

record GetApprovalsOptions =
  globalseq :: "UInt64Type option"
  limit :: "int option"
  offset :: "int option"

record GetActivityOptions =
  limit :: "int option"
  offset :: "int option"
  action_type :: "string option"

record GetApproverProposalsOptions =
  status :: "string option"
  include_approved :: "bool option"
  limit :: "int option"
  offset :: "int option"

record SearchProposalsOptions =
  status :: "string option"
  limit :: "int option"
  offset :: "int option"

record MsigsClientOptions =
  maxProposalLimit :: "int option"
  maxApprovalLimit :: "int option"

section \<open>The client\<close>

text \<open>
  The object's fields, and with them the list of requests handed to the transport so far
  (oldest first), which the source does not store and the properties speak about. A method
  is a function from the object before the call to its result and the object after it; a
  rejected promise is a result \<open>Inl\<close>, with \<open>Error\<close> for an error thrown before the
  transport is called, by the client or by a conversion, and \<open>Transport\<close> for one the
  transport raised. Calls are made one after the other, each
  starting when the one before has settled.
\<close>

record MsigsClient =
  client :: APIClient
  options :: "MsigsClientOptions option"
  maxProposalLimit :: "int option"
  maxApprovalLimit :: "int option"
  limitsInitialized :: bool
  requests :: "request list"

definition constructor :: "APIClient \<Rightarrow> MsigsClientOptions option \<Rightarrow> MsigsClient" where
  "constructor client' options' =
     \<lparr>client = client',
      options = options',
      maxProposalLimit = Option.bind options' MsigsClientOptions.maxProposalLimit,
      maxApprovalLimit = Option.bind options' MsigsClientOptions.maxApprovalLimit,
      limitsInitialized = False,
      requests = []\<rparr>"

definition client_call :: "request \<Rightarrow> MsigsClient \<Rightarrow> (error + response) \<times> MsigsClient" where
  \<comment> \<open>\<open>this.client.call({path, params})\<close>\<close>
  "client_call req this =
     (case client this (requests this) req of
        Inl e \<Rightarrow> (Inl (Transport e), this\<lparr>requests := requests this @ [req]\<rparr>)
      | Inr r \<Rightarrow> (Inr r, this\<lparr>requests := requests this @ [req]\<rparr>))"

definition get_status :: "MsigsClient \<Rightarrow> (error + response) \<times> MsigsClient" where
  "get_status this =
     client_call \<lparr>path = ''/v1/proposals/get_status'', params = Map.empty\<rparr> this"

definition initializeLimits :: "MsigsClient \<Rightarrow> MsigsClient" where
  "initializeLimits this =
     (if limitsInitialized this then this
      else if maxProposalLimit this \<noteq> None \<and> maxApprovalLimit this \<noteq> None
      then this\<lparr>limitsInitialized := True\<rparr>
      else
        (case get_status this of
           (Inr status', this) \<Rightarrow>
             (let this = (if maxProposalLimit this = None
                          then this\<lparr>maxProposalLimit :=
                                 Some (or_default (max_proposal_results_of status') 20)\<rparr>
                          else this);
                  this = (if maxApprovalLimit this = None
                          then this\<lparr>maxApprovalLimit :=
                                 Some (or_default (max_approval_results_of status') 100)\<rparr>
                          else this)
              in this\<lparr>limitsInitialized := True\<rparr>)
         | (Inl error', this) \<Rightarrow>
             (let this = (if maxProposalLimit this = None
                          then this\<lparr>maxProposalLimit := Some 20\<rparr> else this);
                  this = (if maxApprovalLimit this = None
                          then this\<lparr>maxApprovalLimit := Some 100\<rparr> else this)
              in this\<lparr>limitsInitialized := True\<rparr>)))"

definition getMaxProposalLimit :: "MsigsClient \<Rightarrow> (error + int option) \<times> MsigsClient" where
  "getMaxProposalLimit this =
     (let this = initializeLimits this in (Inr (maxProposalLimit this), this))"

definition getMaxApprovalLimit :: "MsigsClient \<Rightarrow> (error + int option) \<times> MsigsClient" where
  "getMaxApprovalLimit this =
     (let this = initializeLimits this in (Inr (maxApprovalLimit this), this))"

text \<open>
  A method builds its parameters statement by statement, and a conversion or the limit check
  can throw on the way. \<open>at_globalseq\<close>, \<open>at_limit\<close> and \<open>at_offset\<close> are the method's body
  from the statement that handles that option to its end, and \<open>send\<close> is what follows the
  last of them: each is reached with the parameters built so far, and not at all when an
  earlier statement has thrown.
\<close>

definition get_proposal ::
  "NameType \<Rightarrow> NameType \<Rightarrow> GetProposalOptions option \<Rightarrow> MsigsClient
     \<Rightarrow> (error + response) \<times> MsigsClient" where
  "get_proposal proposer' proposalName options' this =
     (let params = [''proposer'' \<mapsto> Name_from proposer',
                    ''proposal_name'' \<mapsto> Name_from proposalName];
          send = (\<lambda>params this.
            let params = (case Option.bind options' GetProposalOptions.version_history of
                            Some v \<Rightarrow> params(''version_history'' \<mapsto> Boolean v)
                          | None \<Rightarrow> params)
            in client_call
              \<lparr>path = ''/v1/proposals/get_proposal'', params = params\<rparr> this);
          at_globalseq = (\<lambda>params this.
            case Option.bind options' GetProposalOptions.globalseq of
              Some v \<Rightarrow>
                (case UInt64_from v of
                   Inl e \<Rightarrow> (Inl e, this)
                 | Inr w \<Rightarrow> send (params(''globalseq'' \<mapsto> w)) this)
            | None \<Rightarrow> send params this)
      in at_globalseq params this)"

definition get_proposal_history ::
  "NameType \<Rightarrow> NameType \<Rightarrow> GetProposalHistoryOptions option \<Rightarrow> MsigsClient
     \<Rightarrow> (error + response) \<times> MsigsClient" where
  "get_proposal_history proposer' proposalName options' this =
     (let params = [''proposer'' \<mapsto> Name_from proposer',
                    ''proposal_name'' \<mapsto> Name_from proposalName];
          params = (case Option.bind options' GetProposalHistoryOptions.status of
                      Some v \<Rightarrow> params(''status'' \<mapsto> String v)
                    | None \<Rightarrow> params);
          send = (\<lambda>params this.
            client_call
              \<lparr>path = ''/v1/proposals/get_proposal_history'', params = params\<rparr> this);
          at_offset = (\<lambda>params this.
            case Option.bind options' GetProposalHistoryOptions.offset of
              Some v \<Rightarrow>
                (case Int32_from v of
                   Inl e \<Rightarrow> (Inl e, this)
                 | Inr w \<Rightarrow> send (params(''offset'' \<mapsto> w)) this)
            | None \<Rightarrow> send params this);
          at_limit = (\<lambda>params this.
            case Option.bind options' GetProposalHistoryOptions.limit of
              Some v \<Rightarrow>
                (let this = initializeLimits this
                 in if greater_than v (maxProposalLimit this)
                    then (Inl (Error (''Limit cannot exceed '' @
                                template (maxProposalLimit this))), this)
                    else (case Int32_from v of
                            Inl e \<Rightarrow> (Inl e, this)
                          | Inr w \<Rightarrow> at_offset (params(''limit'' \<mapsto> w)) this))
            | None \<Rightarrow> at_offset params this)
      in at_limit params this)"

definition get_proposals ::
  "GetProposalsOptions option \<Rightarrow> MsigsClient
     \<Rightarrow> (error + response) \<times> MsigsClient" where
  "get_proposals options' this =
     (let params = (Map.empty :: string \<rightharpoonup> wire);
          params = (case Option.bind options' GetProposalsOptions.proposer of
                      Some v \<Rightarrow> params(''proposer'' \<mapsto> Name_from v)
                    | None \<Rightarrow> params);
          params = (case Option.bind options' GetProposalsOptions.status of
                      Some v \<Rightarrow> params(''status'' \<mapsto> String v)
                    | None \<Rightarrow> params);
          send = (\<lambda>params this.
            client_call
              \<lparr>path = ''/v1/proposals/get_proposals'', params = params\<rparr> this);
          at_offset = (\<lambda>params this.
            case Option.bind options' GetProposalsOptions.offset of
              Some v \<Rightarrow>
                (case Int32_from v of
                   Inl e \<Rightarrow> (Inl e, this)
                 | Inr w \<Rightarrow> send (params(''offset'' \<mapsto> w)) this)
            | None \<Rightarrow> send params this);
          at_limit = (\<lambda>params this.
            case Option.bind options' GetProposalsOptions.limit of
              Some v \<Rightarrow>
                (let this = initializeLimits this
                 in if greater_than v (maxProposalLimit this)
                    then (Inl (Error (''Limit cannot exceed '' @
                                template (maxProposalLimit this))), this)
                    else (case Int32_from v of
                            Inl e \<Rightarrow> (Inl e, this)
                          | Inr w \<Rightarrow> at_offset (params(''limit'' \<mapsto> w)) this))
            | None \<Rightarrow> at_offset params this)
      in at_limit params this)"

definition get_active ::
  "GetActiveOptions option \<Rightarrow> MsigsClient
     \<Rightarrow> (error + response) \<times> MsigsClient" where
  "get_active options' this =
     (let params = (Map.empty :: string \<rightharpoonup> wire);
          send = (\<lambda>params this.
            let params = (case Option.bind options' GetActiveOptions.sort_by of
                            Some v \<Rightarrow> params(''sort_by'' \<mapsto> String v)
                          | None \<Rightarrow> params)
            in client_call
              \<lparr>path = ''/v1/proposals/get_active'', params = params\<rparr> this);
          at_offset = (\<lambda>params this.
            case Option.bind options' GetActiveOptions.offset of
              Some v \<Rightarrow>
                (case Int32_from v of
                   Inl e \<Rightarrow> (Inl e, this)
                 | Inr w \<Rightarrow> send (params(''offset'' \<mapsto> w)) this)
            | None \<Rightarrow> send params this);
          at_limit = (\<lambda>params this.
            case Option.bind options' GetActiveOptions.limit of
              Some v \<Rightarrow>
                (let this = initializeLimits this
                 in if greater_than v (maxProposalLimit this)
                    then (Inl (Error (''Limit cannot exceed '' @
                                template (maxProposalLimit this))), this)
                    else (case Int32_from v of
                            Inl e \<Rightarrow> (Inl e, this)
                          | Inr w \<Rightarrow> at_offset (params(''limit'' \<mapsto> w)) this))
            | None \<Rightarrow> at_offset params this)
      in at_limit params this)"

definition get_approvals ::
  "NameType \<Rightarrow> NameType \<Rightarrow> GetApprovalsOptions option \<Rightarrow> MsigsClient
     \<Rightarrow> (error + response) \<times> MsigsClient" where
  "get_approvals proposer' proposalName options' this =
     (let params = [''proposer'' \<mapsto> Name_from proposer',
                    ''proposal_name'' \<mapsto> Name_from proposalName];
          send = (\<lambda>params this.
            client_call
              \<lparr>path = ''/v1/proposals/get_approvals'', params = params\<rparr> this);
          at_offset = (\<lambda>params this.
            case Option.bind options' GetApprovalsOptions.offset of
              Some v \<Rightarrow>
                (case Int32_from v of
                   Inl e \<Rightarrow> (Inl e, this)
                 | Inr w \<Rightarrow> send (params(''offset'' \<mapsto> w)) this)
            | None \<Rightarrow> send params this);
          at_limit = (\<lambda>params this.
            case Option.bind options' GetApprovalsOptions.limit of
              Some v \<Rightarrow>
                (let this = initializeLimits this
                 in if greater_than v (maxApprovalLimit this)
                    then (Inl (Error (''Limit cannot exceed '' @
                                template (maxApprovalLimit this))), this)
                    else (case Int32_from v of
                            Inl e \<Rightarrow> (Inl e, this)
                          | Inr w \<Rightarrow> at_offset (params(''limit'' \<mapsto> w)) this))
            | None \<Rightarrow> at_offset params this);
          at_globalseq = (\<lambda>params this.
            case Option.bind options' GetApprovalsOptions.globalseq of
              Some v \<Rightarrow>
                (case UInt64_from v of
                   Inl e \<Rightarrow> (Inl e, this)
                 | Inr w \<Rightarrow> at_limit (params(''globalseq'' \<mapsto> w)) this)
            | None \<Rightarrow> at_limit params this)
      in at_globalseq params this)"

definition get_activity ::
  "NameType \<Rightarrow> GetActivityOptions option \<Rightarrow> MsigsClient
     \<Rightarrow> (error + response) \<times> MsigsClient" where
  "get_activity account options' this =
     (let params = [''account'' \<mapsto> Name_from account];
          send = (\<lambda>params this.
            let params = (case Option.bind options' GetActivityOptions.action_type of
                            Some v \<Rightarrow> params(''action_type'' \<mapsto> String v)
                          | None \<Rightarrow> params)
            in client_call
              \<lparr>path = ''/v1/proposals/get_activity'', params = params\<rparr> this);
          at_offset = (\<lambda>params this.
            case Option.bind options' GetActivityOptions.offset of
              Some v \<Rightarrow>
                (case Int32_from v of
                   Inl e \<Rightarrow> (Inl e, this)
                 | Inr w \<Rightarrow> send (params(''offset'' \<mapsto> w)) this)
            | None \<Rightarrow> send params this);
          at_limit = (\<lambda>params this.
            case Option.bind options' GetActivityOptions.limit of
              Some v \<Rightarrow>
                (let this = initializeLimits this
                 in if greater_than v (maxProposalLimit this)
                    then (Inl (Error (''Limit cannot exceed '' @
                                template (maxProposalLimit this))), this)
                    else (case Int32_from v of
                            Inl e \<Rightarrow> (Inl e, this)
                          | Inr w \<Rightarrow> at_offset (params(''limit'' \<mapsto> w)) this))
            | None \<Rightarrow> at_offset params this)
      in at_limit params this)"

definition get_approver_proposals ::
  "NameType \<Rightarrow> GetApproverProposalsOptions option \<Rightarrow> MsigsClient
     \<Rightarrow> (error + response) \<times> MsigsClient" where
  "get_approver_proposals approver options' this =
     (let params = [''approver'' \<mapsto> Name_from approver];
          params = (case Option.bind options' GetApproverProposalsOptions.status of
                      Some v \<Rightarrow> params(''status'' \<mapsto> String v)
                    | None \<Rightarrow> params);
          params = (case Option.bind options' GetApproverProposalsOptions.include_approved of
                      Some v \<Rightarrow> params(''include_approved'' \<mapsto> Boolean v)
                    | None \<Rightarrow> params);
          send = (\<lambda>params this.
            client_call
              \<lparr>path = ''/v1/proposals/get_approver_proposals'', params = params\<rparr> this);
          at_offset = (\<lambda>params this.
            case Option.bind options' GetApproverProposalsOptions.offset of
              Some v \<Rightarrow>
                (case Int32_from v of
                   Inl e \<Rightarrow> (Inl e, this)
                 | Inr w \<Rightarrow> send (params(''offset'' \<mapsto> w)) this)
            | None \<Rightarrow> send params this);
          at_limit = (\<lambda>params this.
            case Option.bind options' GetApproverProposalsOptions.limit of
              Some v \<Rightarrow>
                (let this = initializeLimits this
                 in if greater_than v (maxProposalLimit this)
                    then (Inl (Error (''Limit cannot exceed '' @
                                template (maxProposalLimit this))), this)
                    else (case Int32_from v of
                            Inl e \<Rightarrow> (Inl e, this)
                          | Inr w \<Rightarrow> at_offset (params(''limit'' \<mapsto> w)) this))
            | None \<Rightarrow> at_offset params this)
      in at_limit params this)"

definition search_proposals ::
  "string \<Rightarrow> SearchProposalsOptions option \<Rightarrow> MsigsClient
     \<Rightarrow> (error + response) \<times> MsigsClient" where
  "search_proposals query options' this =
     (let params = [''query'' \<mapsto> String query];
          params = (case Option.bind options' SearchProposalsOptions.status of
                      Some v \<Rightarrow> params(''status'' \<mapsto> String v)
                    | None \<Rightarrow> params);
          send = (\<lambda>params this.
            client_call
              \<lparr>path = ''/v1/proposals/search_proposals'', params = params\<rparr> this);
          at_offset = (\<lambda>params this.
            case Option.bind options' SearchProposalsOptions.offset of
              Some v \<Rightarrow>
                (case Int32_from v of
                   Inl e \<Rightarrow> (Inl e, this)
                 | Inr w \<Rightarrow> send (params(''offset'' \<mapsto> w)) this)
            | None \<Rightarrow> send params this);
          at_limit = (\<lambda>params this.
            case Option.bind options' SearchProposalsOptions.limit of
              Some v \<Rightarrow>
                (let this = initializeLimits this
                 in if greater_than v (maxProposalLimit this)
                    then (Inl (Error (''Limit cannot exceed '' @
                                template (maxProposalLimit this))), this)
                    else (case Int32_from v of
                            Inl e \<Rightarrow> (Inl e, this)
                          | Inr w \<Rightarrow> at_offset (params(''limit'' \<mapsto> w)) this))
            | None \<Rightarrow> at_offset params this)
      in at_limit params this)"

section \<open>Call sequences\<close>

text \<open>
  One call of a public method, with its arguments. \<open>invoke\<close> is the client after the call
  has settled (resolved or rejected); \<open>run\<close> makes the calls of a list one after the other,
  each starting when the one before has settled.
\<close>

datatype invocation =
    GetMaxProposalLimit
  | GetMaxApprovalLimit
  | Get_proposal NameType NameType "GetProposalOptions option"
  | Get_proposal_history NameType NameType "GetProposalHistoryOptions option"
  | Get_proposals "GetProposalsOptions option"
  | Get_active "GetActiveOptions option"
  | Get_approvals NameType NameType "GetApprovalsOptions option"
  | Get_activity NameType "GetActivityOptions option"
  | Get_approver_proposals NameType "GetApproverProposalsOptions option"
  | Search_proposals string "SearchProposalsOptions option"
  | Get_status

fun invoke :: "invocation \<Rightarrow> MsigsClient \<Rightarrow> MsigsClient" where
  "invoke GetMaxProposalLimit this = snd (getMaxProposalLimit this)"
| "invoke GetMaxApprovalLimit this = snd (getMaxApprovalLimit this)"
| "invoke (Get_proposal p n opts) this = snd (get_proposal p n opts this)"
| "invoke (Get_proposal_history p n opts) this = snd (get_proposal_history p n opts this)"
| "invoke (Get_proposals opts) this = snd (get_proposals opts this)"
| "invoke (Get_active opts) this = snd (get_active opts this)"
| "invoke (Get_approvals p n opts) this = snd (get_approvals p n opts this)"
| "invoke (Get_activity a opts) this = snd (get_activity a opts this)"
| "invoke (Get_approver_proposals a opts) this = snd (get_approver_proposals a opts this)"
| "invoke (Search_proposals q opts) this = snd (search_proposals q opts this)"
| "invoke Get_status this = snd (get_status this)"

fun run :: "invocation list \<Rightarrow> MsigsClient \<Rightarrow> MsigsClient" where
  "run [] this = this"
| "run (c # cs) this = run cs (invoke c this)"

definition status_calls :: "request list \<Rightarrow> nat" where
  \<comment> \<open>how many of the requests went to the status endpoint\<close>
  "status_calls rs = length (filter (\<lambda>r. path r = ''/v1/proposals/get_status'') rs)"

definition direct_status_calls :: "invocation list \<Rightarrow> nat" where
  \<comment> \<open>how many of the calls are the caller's own \<open>get_status\<close>\<close>
  "direct_status_calls cs = length (filter (\<lambda>c. c = Get_status) cs)"

text \<open>The members of the class, by name, and the endpoint paths its methods name.\<close>

definition MsigsClient_members :: "string list" where
  "MsigsClient_members =
     [''maxProposalLimit'', ''maxApprovalLimit'', ''limitsInitialized'', ''client'', ''options'',
      ''constructor'', ''initializeLimits'', ''getMaxProposalLimit'', ''getMaxApprovalLimit'',
      ''get_proposal'', ''get_proposal_history'', ''get_proposals'', ''get_active'',
      ''get_approvals'', ''get_activity'', ''get_approver_proposals'', ''search_proposals'',
      ''get_status'']"

definition endpoint_paths :: "string set" where
  "endpoint_paths =
     {''/v1/proposals/get_proposal'', ''/v1/proposals/get_proposal_history'',
      ''/v1/proposals/get_proposals'', ''/v1/proposals/get_active'',
      ''/v1/proposals/get_approvals'', ''/v1/proposals/get_activity'',
      ''/v1/proposals/get_approver_proposals'', ''/v1/proposals/search_proposals'',
      ''/v1/proposals/get_status''}"

section \<open>Example transports\<close>

text \<open>
  Two transports for concrete runs: one on which every call fails, as with an endpoint that
  cannot be reached, and one that answers the status endpoint with a given status object and
  every other endpoint with an empty payload.
\<close>

definition failing :: APIClient where
  "failing history req = Inl ''Network error''"

definition serving :: "ServiceStatus \<Rightarrow> APIClient" where
  "serving st history req =
     (if path req = ''/v1/proposals/get_status'' then Inr (GetStatusResponse st)
      else Inr (Payload []))"

definition status_with :: "int option \<Rightarrow> int option \<Rightarrow> ServiceStatus" where
  "status_with mp ma =
     \<lparr>head_block_num = None, last_irreversible_block_num = None, chain_id = None,
      server_version = None, accepting_http = None, database_size = None,
      database_size_mb = None, last_account_action_seq = None, synced = None,
      max_proposal_results = mp, max_approval_results = ma\<rparr>"

text \<open>Option bags for concrete calls: only a limit, and nothing at all.\<close>

definition proposals_limit :: "int \<Rightarrow> GetProposalsOptions" where
  "proposals_limit l =
     \<lparr>GetProposalsOptions.proposer = None, GetProposalsOptions.status = None,
      GetProposalsOptions.limit = Some l, GetProposalsOptions.offset = None\<rparr>"

definition approvals_limit :: "int \<Rightarrow> GetApprovalsOptions" where
  "approvals_limit l =
     \<lparr>GetApprovalsOptions.globalseq = None, GetApprovalsOptions.limit = Some l,
      GetApprovalsOptions.offset = None\<rparr>"

definition proposals_unfiltered :: GetProposalsOptions where
  "proposals_unfiltered =
     \<lparr>GetProposalsOptions.proposer = None, GetProposalsOptions.status = None,
      GetProposalsOptions.limit = None, GetProposalsOptions.offset = None\<rparr>"

section \<open>Pagination: the derived fields\<close>

text \<open>
  C1. For every offset, limit, total and more-flag with a positive limit, the current page is
  the floor of offset / limit plus one, the page count is total / limit rounded up, hasMore is
  the flag, hasPrevious holds exactly for a positive offset, the next offset is present exactly
  when the flag is set and is then offset + limit, the previous offset is present exactly for a
  positive offset and is then max 0 (offset - limit), and a total of zero gives zero pages.
  The two quotients are also given in whole-number division. The inputs are safe integers, and
  so are the magnitude of the offset plus the limit and the magnitude of the total plus the
  limit, so that no sum, difference or quotient of the computation is rounded.
\<close>

lemma div_magnitude:
  fixes a b :: int
  assumes "0 < b"
  shows "\<bar>a div b\<bar> \<le> \<bar>a\<bar>"
proof (cases "0 \<le> a")
  case True
  with assms have "0 \<le> a div b"
    by (simp add: pos_imp_zdiv_nonneg_iff)
  moreover have "a div b \<le> a"
    using True by (metis div_0 int_div_le_self leI nle_le)
  ultimately show ?thesis
    using True by simp
next
  case False
  with assms have "a div b < 0"
    by (simp add: pos_imp_zdiv_neg_iff)
  moreover have "a div 1 \<le> a div b"
    using False assms by (intro zdiv_mono2_neg) simp_all
  ultimately show ?thesis
    using False by simp
qed

theorem getPaginationInfo_fields:
  assumes "0 < lmt"
    and "safe_integer off" and "safe_integer lmt" and "safe_integer tot"
    and "safe_integer (\<bar>off\<bar> + lmt)" and "safe_integer (\<bar>tot\<bar> + lmt)"
  shows "currentPage (getPaginationInfo off lmt tot m) =
           Finite (\<lfloor>real_of_int off / real_of_int lmt\<rfloor> + 1)
       \<and> currentPage (getPaginationInfo off lmt tot m) = Finite (off div lmt + 1)
       \<and> totalPages (getPaginationInfo off lmt tot m) =
           Finite \<lceil>real_of_int tot / real_of_int lmt\<rceil>
       \<and> totalPages (getPaginationInfo off lmt tot m) = Finite (- ((- tot) div lmt))
       \<and> hasMore (getPaginationInfo off lmt tot m) = m
       \<and> hasPrevious (getPaginationInfo off lmt tot m) = (0 < off)
       \<and> (nextOffset (getPaginationInfo off lmt tot m) \<noteq> None) = m
       \<and> (m \<longrightarrow> nextOffset (getPaginationInfo off lmt tot m) = Some (off + lmt))
       \<and> (previousOffset (getPaginationInfo off lmt tot m) \<noteq> None) = (0 < off)
       \<and> (0 < off \<longrightarrow>
            previousOffset (getPaginationInfo off lmt tot m) = Some (max 0 (off - lmt)))
       \<and> (tot = 0 \<longrightarrow> totalPages (getPaginationInfo off lmt tot m) = Finite 0)
       \<and> safe_integer (off div lmt + 1) \<and> safe_integer (- ((- tot) div lmt))
       \<and> safe_integer (off + lmt) \<and> safe_integer (off - lmt)"
proof -
  have fl: "\<lfloor>real_of_int off / real_of_int lmt\<rfloor> = off div lmt"
    by (rule floor_divide_of_int_eq)
  have "\<lceil>real_of_int tot / real_of_int lmt\<rceil> =
      - \<lfloor>real_of_int (- tot) / real_of_int lmt\<rfloor>"
    by (simp add: ceiling_def)
  also have "\<dots> = - ((- tot) div lmt)"
    by (simp only: floor_divide_of_int_eq)
  finally have ce: "\<lceil>real_of_int tot / real_of_int lmt\<rceil> = - ((- tot) div lmt)" .
  from assms have nz: "lmt \<noteq> 0" by simp
  have q1: "\<bar>off div lmt\<bar> \<le> \<bar>off\<bar>" and q2: "\<bar>(- tot) div lmt\<bar> \<le> \<bar>- tot\<bar>"
    using assms(1) by (rule div_magnitude)+
  have safe: "safe_integer (off div lmt + 1) \<and> safe_integer (- ((- tot) div lmt))
      \<and> safe_integer (off + lmt) \<and> safe_integer (off - lmt)"
    using assms q1 q2 by (simp add: safe_integer_def abs_if split: if_splits)
  show ?thesis
    using nz safe
    by (simp add: getPaginationInfo_def Math_floor_divide_def Math_ceil_divide_def Let_def
        fl ce del: of_int_minus)
qed

theorem getPaginationInfo_fields_witness:
  "(0::int) < 10
   \<and> currentPage (getPaginationInfo 40 10 50 False) = Finite 5
   \<and> totalPages (getPaginationInfo 40 10 50 False) = Finite 5
   \<and> hasMore (getPaginationInfo 40 10 50 False) = False
   \<and> hasPrevious (getPaginationInfo 40 10 50 False) = True
   \<and> nextOffset (getPaginationInfo 40 10 50 False) = None
   \<and> previousOffset (getPaginationInfo 40 10 50 False) = Some 30"
proof -
  have "safe_integer 40" and "safe_integer 10" and "safe_integer 50"
    and "safe_integer (\<bar>40\<bar> + 10)" and "safe_integer (\<bar>50\<bar> + 10)"
    by (simp_all add: safe_integer_def)
  from getPaginationInfo_fields [OF _ this, of False] show ?thesis
    by simp
qed

section \<open>Facts about the transport call and limit discovery\<close>

lemma client_call_snd: "snd (client_call req s) = s\<lparr>requests := requests s @ [req]\<rparr>"
  by (simp add: client_call_def split: sum.split)

lemma client_call_fst:
  "fst (client_call req s) =
     (case client s (requests s) req of Inl e \<Rightarrow> Inl (Transport e) | Inr r \<Rightarrow> Inr r)"
  by (simp add: client_call_def split: sum.split)

lemma client_call_no_Error: "fst (client_call req s) \<noteq> Inl (Error msg)"
  by (simp add: client_call_fst split: sum.split)

lemma initializeLimits_done: "limitsInitialized (initializeLimits s)"
  by (simp add: initializeLimits_def get_status_def client_call_def Let_def split: sum.split)

lemma initializeLimits_noop: "limitsInitialized s \<Longrightarrow> initializeLimits s = s"
  by (simp add: initializeLimits_def)

lemma initializeLimits_idem: "initializeLimits (initializeLimits s) = initializeLimits s"
  by (rule initializeLimits_noop) (rule initializeLimits_done)

lemma initializeLimits_requests:
  "requests (initializeLimits s) =
     requests s @
       (if limitsInitialized s \<or> (maxProposalLimit s \<noteq> None \<and> maxApprovalLimit s \<noteq> None)
        then [] else [\<lparr>path = ''/v1/proposals/get_status'', params = Map.empty\<rparr>])"
  by (simp add: initializeLimits_def get_status_def client_call_def Let_def split: sum.split)

lemma initializeLimits_proposal_keep:
  "maxProposalLimit s = Some v \<Longrightarrow> maxProposalLimit (initializeLimits s) = Some v"
  by (simp add: initializeLimits_def get_status_def client_call_def Let_def split: sum.split)

lemma initializeLimits_approval_keep:
  "maxApprovalLimit s = Some v \<Longrightarrow> maxApprovalLimit (initializeLimits s) = Some v"
  by (simp add: initializeLimits_def get_status_def client_call_def Let_def split: sum.split)

lemma initializeLimits_failed:
  assumes "\<not> limitsInitialized s"
    and "client s (requests s)
           \<lparr>path = ''/v1/proposals/get_status'', params = Map.empty\<rparr> = Inl e"
  shows "maxProposalLimit (initializeLimits s) =
           Some (case maxProposalLimit s of None \<Rightarrow> 20 | Some v \<Rightarrow> v)"
    and "maxApprovalLimit (initializeLimits s) =
           Some (case maxApprovalLimit s of None \<Rightarrow> 100 | Some v \<Rightarrow> v)"
  using assms
  by (auto simp add: initializeLimits_def get_status_def client_call_def Let_def
      split: option.split)

lemma initializeLimits_answered:
  assumes "\<not> limitsInitialized s"
    and "maxProposalLimit s = None \<or> maxApprovalLimit s = None"
    and "client s (requests s)
           \<lparr>path = ''/v1/proposals/get_status'', params = Map.empty\<rparr> = Inr r"
  shows "maxProposalLimit (initializeLimits s) =
           Some (case maxProposalLimit s of
                   None \<Rightarrow> or_default (max_proposal_results_of r) 20 | Some v \<Rightarrow> v)"
    and "maxApprovalLimit (initializeLimits s) =
           Some (case maxApprovalLimit s of
                   None \<Rightarrow> or_default (max_approval_results_of r) 100 | Some v \<Rightarrow> v)"
  using assms
  by (auto simp add: initializeLimits_def get_status_def client_call_def Let_def
      split: option.split)

section \<open>Facts about the single operations\<close>

lemma get_status_snd:
  "snd (get_status s) =
     s\<lparr>requests := requests s @
       [\<lparr>path = ''/v1/proposals/get_status'', params = Map.empty\<rparr>]\<rparr>"
  by (simp add: get_status_def client_call_snd)

lemma Int32_from_in: "in_int32 v \<Longrightarrow> Int32_from v = Inr (Int32 v)"
  by (simp add: Int32_from_def in_int32_def)

lemma UInt64_from_in: "in_uint64 v \<Longrightarrow> UInt64_from v = Inr (UInt64 v)"
  by (simp add: UInt64_from_def in_uint64_def)

lemma Int32_from_Inl: "Int32_from v = Inl e \<Longrightarrow> \<exists>m. e = Error (CHR ''N'' # m)"
  by (auto simp add: Int32_from_def split: if_splits)

lemma UInt64_from_Inl: "UInt64_from v = Inl e \<Longrightarrow> \<exists>m. e = Error (CHR ''N'' # m)"
  by (auto simp add: UInt64_from_def split: if_splits)

lemma get_proposal_effect:
  "snd (get_proposal p n opts s) = s
   \<or> (\<exists>ps. snd (get_proposal p n opts s) =
          s\<lparr>requests := requests s @
            [\<lparr>path = ''/v1/proposals/get_proposal'', params = ps\<rparr>]\<rparr>)"
  by (cases "Option.bind opts GetProposalOptions.globalseq";
      auto simp add: get_proposal_def Let_def client_call_snd split: sum.split)

lemma greater_than_iff: "greater_than l c = (\<exists>m. c = Some m \<and> m < l)"
  by (simp add: greater_than_def split: option.split)

lemma get_proposal_unfiltered:
  assumes "\<forall>x. opts = Some x \<longrightarrow>
             GetProposalOptions.globalseq x = None \<and> GetProposalOptions.version_history x = None"
  shows "requests (snd (get_proposal p n opts s)) =
     requests s @
       [\<lparr>path = ''/v1/proposals/get_proposal'',
         params = [''proposer'' \<mapsto> Name_from p, ''proposal_name'' \<mapsto> Name_from n]\<rparr>]"
proof -
  from assms have "Option.bind opts GetProposalOptions.globalseq = None"
    and "Option.bind opts GetProposalOptions.version_history = None"
    by (cases opts; simp)+
  then show ?thesis
    by (simp add: get_proposal_def client_call_snd)
qed

lemma get_proposal_history_effect:
  "snd (get_proposal_history p n opts s) = s
   \<or> snd (get_proposal_history p n opts s) = initializeLimits s
   \<or> (\<exists>ps. snd (get_proposal_history p n opts s) =
          s\<lparr>requests := requests s @
             [\<lparr>path = ''/v1/proposals/get_proposal_history'', params = ps\<rparr>]\<rparr>)
   \<or> (\<exists>ps. snd (get_proposal_history p n opts s) =
          (initializeLimits s)\<lparr>requests := requests (initializeLimits s) @
             [\<lparr>path = ''/v1/proposals/get_proposal_history'', params = ps\<rparr>]\<rparr>)"
  by (cases "Option.bind opts GetProposalHistoryOptions.limit";
      cases "Option.bind opts GetProposalHistoryOptions.offset";
      auto simp add: get_proposal_history_def Let_def client_call_snd split: sum.split)

lemma get_proposal_history_rejects:
  assumes "GetProposalHistoryOptions.limit opt = Some l"
    and "greater_than l (maxProposalLimit (initializeLimits s))"
  shows "get_proposal_history p n (Some opt) s =
     (Inl (Error (''Limit cannot exceed '' @ template (maxProposalLimit (initializeLimits s)))),
      initializeLimits s)"
  using assms
  by (auto simp add: get_proposal_history_def Let_def UInt64_from_in split: option.split)

lemma get_proposal_history_accepts:
  assumes "GetProposalHistoryOptions.limit opt = Some l"
    and "\<not> greater_than l (maxProposalLimit (initializeLimits s))"
    and "in_int32 l"
    and "\<forall>v. GetProposalHistoryOptions.offset opt = Some v \<longrightarrow> in_int32 v"
  shows "get_proposal_history p n (Some opt) s =
           client_call (last (requests (snd (get_proposal_history p n (Some opt) s))))
             (initializeLimits s)"
    and "path (last (requests (snd (get_proposal_history p n (Some opt) s)))) =
           ''/v1/proposals/get_proposal_history''"
    and "params (last (requests (snd (get_proposal_history p n (Some opt) s)))) ''limit'' =
           Some (Int32 l)"
  using assms
  by (auto simp add: get_proposal_history_def Let_def client_call_snd Int32_from_in UInt64_from_in
      split: option.split)

lemma get_proposal_history_no_Error:
  assumes "GetProposalHistoryOptions.limit opt = Some l"
    and "\<not> greater_than l (maxProposalLimit (initializeLimits s))"
    and "in_int32 l"
    and "\<forall>v. GetProposalHistoryOptions.offset opt = Some v \<longrightarrow> in_int32 v"
  shows "fst (get_proposal_history p n (Some opt) s) \<noteq> Inl (Error msg)"
  using get_proposal_history_accepts(1) [OF assms] client_call_no_Error by metis

lemma get_proposal_history_no_limit_error:
  assumes "GetProposalHistoryOptions.limit opt = Some l"
    and "\<not> greater_than l (maxProposalLimit (initializeLimits s))"
  shows "fst (get_proposal_history p n (Some opt) s) \<noteq>
     Inl (Error (''Limit cannot exceed '' @ c))"
  using assms
  by (auto simp add: get_proposal_history_def Let_def client_call_fst
      split: option.split sum.split dest: Int32_from_Inl UInt64_from_Inl)

lemma get_proposal_history_limit_out_of_range:
  assumes "GetProposalHistoryOptions.limit opt = Some l"
    and "\<not> greater_than l (maxProposalLimit (initializeLimits s))"
    and "\<not> in_int32 l"
  shows "\<exists>msg. get_proposal_history p n (Some opt) s =
     (Inl (Error msg), initializeLimits s)"
  using assms
  by (auto simp add: get_proposal_history_def Let_def Int32_from_def in_int32_def UInt64_from_in
      split: option.split)

lemma get_proposal_history_limit_error_iff:
  assumes "GetProposalHistoryOptions.limit opt = Some l"
  shows "(\<exists>c. fst (get_proposal_history p n (Some opt) s) =
            Inl (Error (''Limit cannot exceed '' @ c)))
     = greater_than l (maxProposalLimit (initializeLimits s))"
proof (cases "greater_than l (maxProposalLimit (initializeLimits s))")
  case True
  with get_proposal_history_rejects [OF assms(1) True] show ?thesis by auto
next
  case False
  with get_proposal_history_no_limit_error [OF assms(1) False] show ?thesis by simp
qed

lemma get_proposal_history_unfiltered:
  assumes "\<forall>x. opts = Some x \<longrightarrow>
             GetProposalHistoryOptions.status x = None
             \<and> GetProposalHistoryOptions.limit x = None
             \<and> GetProposalHistoryOptions.offset x = None"
  shows "requests (snd (get_proposal_history p n opts s)) =
     requests s @
       [\<lparr>path = ''/v1/proposals/get_proposal_history'',
         params = [''proposer'' \<mapsto> Name_from p, ''proposal_name'' \<mapsto> Name_from n]\<rparr>]"
proof -
  from assms have "Option.bind opts GetProposalHistoryOptions.status = None"
    and "Option.bind opts GetProposalHistoryOptions.limit = None"
    and "Option.bind opts GetProposalHistoryOptions.offset = None"
    by (cases opts; simp)+
  then show ?thesis
    by (simp add: get_proposal_history_def client_call_snd)
qed

lemma get_proposals_effect:
  "snd (get_proposals opts s) = s
   \<or> snd (get_proposals opts s) = initializeLimits s
   \<or> (\<exists>ps. snd (get_proposals opts s) =
          s\<lparr>requests := requests s @
             [\<lparr>path = ''/v1/proposals/get_proposals'', params = ps\<rparr>]\<rparr>)
   \<or> (\<exists>ps. snd (get_proposals opts s) =
          (initializeLimits s)\<lparr>requests := requests (initializeLimits s) @
             [\<lparr>path = ''/v1/proposals/get_proposals'', params = ps\<rparr>]\<rparr>)"
  by (cases "Option.bind opts GetProposalsOptions.limit";
      cases "Option.bind opts GetProposalsOptions.offset";
      auto simp add: get_proposals_def Let_def client_call_snd split: sum.split)

lemma get_proposals_rejects:
  assumes "GetProposalsOptions.limit opt = Some l"
    and "greater_than l (maxProposalLimit (initializeLimits s))"
  shows "get_proposals (Some opt) s =
     (Inl (Error (''Limit cannot exceed '' @ template (maxProposalLimit (initializeLimits s)))),
      initializeLimits s)"
  using assms
  by (auto simp add: get_proposals_def Let_def UInt64_from_in split: option.split)

lemma get_proposals_accepts:
  assumes "GetProposalsOptions.limit opt = Some l"
    and "\<not> greater_than l (maxProposalLimit (initializeLimits s))"
    and "in_int32 l"
    and "\<forall>v. GetProposalsOptions.offset opt = Some v \<longrightarrow> in_int32 v"
  shows "get_proposals (Some opt) s =
           client_call (last (requests (snd (get_proposals (Some opt) s))))
             (initializeLimits s)"
    and "path (last (requests (snd (get_proposals (Some opt) s)))) =
           ''/v1/proposals/get_proposals''"
    and "params (last (requests (snd (get_proposals (Some opt) s)))) ''limit'' =
           Some (Int32 l)"
  using assms
  by (auto simp add: get_proposals_def Let_def client_call_snd Int32_from_in UInt64_from_in
      split: option.split)

lemma get_proposals_no_Error:
  assumes "GetProposalsOptions.limit opt = Some l"
    and "\<not> greater_than l (maxProposalLimit (initializeLimits s))"
    and "in_int32 l"
    and "\<forall>v. GetProposalsOptions.offset opt = Some v \<longrightarrow> in_int32 v"
  shows "fst (get_proposals (Some opt) s) \<noteq> Inl (Error msg)"
  using get_proposals_accepts(1) [OF assms] client_call_no_Error by metis

lemma get_proposals_no_limit_error:
  assumes "GetProposalsOptions.limit opt = Some l"
    and "\<not> greater_than l (maxProposalLimit (initializeLimits s))"
  shows "fst (get_proposals (Some opt) s) \<noteq>
     Inl (Error (''Limit cannot exceed '' @ c))"
  using assms
  by (auto simp add: get_proposals_def Let_def client_call_fst
      split: option.split sum.split dest: Int32_from_Inl UInt64_from_Inl)

lemma get_proposals_limit_out_of_range:
  assumes "GetProposalsOptions.limit opt = Some l"
    and "\<not> greater_than l (maxProposalLimit (initializeLimits s))"
    and "\<not> in_int32 l"
  shows "\<exists>msg. get_proposals (Some opt) s =
     (Inl (Error msg), initializeLimits s)"
  using assms
  by (auto simp add: get_proposals_def Let_def Int32_from_def in_int32_def UInt64_from_in
      split: option.split)

lemma get_proposals_limit_error_iff:
  assumes "GetProposalsOptions.limit opt = Some l"
  shows "(\<exists>c. fst (get_proposals (Some opt) s) =
            Inl (Error (''Limit cannot exceed '' @ c)))
     = greater_than l (maxProposalLimit (initializeLimits s))"
proof (cases "greater_than l (maxProposalLimit (initializeLimits s))")
  case True
  with get_proposals_rejects [OF assms(1) True] show ?thesis by auto
next
  case False
  with get_proposals_no_limit_error [OF assms(1) False] show ?thesis by simp
qed

lemma get_proposals_unfiltered:
  assumes "\<forall>x. opts = Some x \<longrightarrow>
             GetProposalsOptions.proposer x = None
             \<and> GetProposalsOptions.status x = None
             \<and> GetProposalsOptions.limit x = None
             \<and> GetProposalsOptions.offset x = None"
  shows "requests (snd (get_proposals opts s)) =
     requests s @
       [\<lparr>path = ''/v1/proposals/get_proposals'',
         params = Map.empty\<rparr>]"
proof -
  from assms have "Option.bind opts GetProposalsOptions.proposer = None"
    and "Option.bind opts GetProposalsOptions.status = None"
    and "Option.bind opts GetProposalsOptions.limit = None"
    and "Option.bind opts GetProposalsOptions.offset = None"
    by (cases opts; simp)+
  then show ?thesis
    by (simp add: get_proposals_def client_call_snd)
qed

lemma get_active_effect:
  "snd (get_active opts s) = s
   \<or> snd (get_active opts s) = initializeLimits s
   \<or> (\<exists>ps. snd (get_active opts s) =
          s\<lparr>requests := requests s @
             [\<lparr>path = ''/v1/proposals/get_active'', params = ps\<rparr>]\<rparr>)
   \<or> (\<exists>ps. snd (get_active opts s) =
          (initializeLimits s)\<lparr>requests := requests (initializeLimits s) @
             [\<lparr>path = ''/v1/proposals/get_active'', params = ps\<rparr>]\<rparr>)"
  by (cases "Option.bind opts GetActiveOptions.limit";
      cases "Option.bind opts GetActiveOptions.offset";
      auto simp add: get_active_def Let_def client_call_snd split: sum.split)

lemma get_active_rejects:
  assumes "GetActiveOptions.limit opt = Some l"
    and "greater_than l (maxProposalLimit (initializeLimits s))"
  shows "get_active (Some opt) s =
     (Inl (Error (''Limit cannot exceed '' @ template (maxProposalLimit (initializeLimits s)))),
      initializeLimits s)"
  using assms
  by (auto simp add: get_active_def Let_def UInt64_from_in split: option.split)

lemma get_active_accepts:
  assumes "GetActiveOptions.limit opt = Some l"
    and "\<not> greater_than l (maxProposalLimit (initializeLimits s))"
    and "in_int32 l"
    and "\<forall>v. GetActiveOptions.offset opt = Some v \<longrightarrow> in_int32 v"
  shows "get_active (Some opt) s =
           client_call (last (requests (snd (get_active (Some opt) s))))
             (initializeLimits s)"
    and "path (last (requests (snd (get_active (Some opt) s)))) =
           ''/v1/proposals/get_active''"
    and "params (last (requests (snd (get_active (Some opt) s)))) ''limit'' =
           Some (Int32 l)"
  using assms
  by (auto simp add: get_active_def Let_def client_call_snd Int32_from_in UInt64_from_in
      split: option.split)

lemma get_active_no_Error:
  assumes "GetActiveOptions.limit opt = Some l"
    and "\<not> greater_than l (maxProposalLimit (initializeLimits s))"
    and "in_int32 l"
    and "\<forall>v. GetActiveOptions.offset opt = Some v \<longrightarrow> in_int32 v"
  shows "fst (get_active (Some opt) s) \<noteq> Inl (Error msg)"
  using get_active_accepts(1) [OF assms] client_call_no_Error by metis

lemma get_active_no_limit_error:
  assumes "GetActiveOptions.limit opt = Some l"
    and "\<not> greater_than l (maxProposalLimit (initializeLimits s))"
  shows "fst (get_active (Some opt) s) \<noteq>
     Inl (Error (''Limit cannot exceed '' @ c))"
  using assms
  by (auto simp add: get_active_def Let_def client_call_fst
      split: option.split sum.split dest: Int32_from_Inl UInt64_from_Inl)

lemma get_active_limit_out_of_range:
  assumes "GetActiveOptions.limit opt = Some l"
    and "\<not> greater_than l (maxProposalLimit (initializeLimits s))"
    and "\<not> in_int32 l"
  shows "\<exists>msg. get_active (Some opt) s =
     (Inl (Error msg), initializeLimits s)"
  using assms
  by (auto simp add: get_active_def Let_def Int32_from_def in_int32_def UInt64_from_in
      split: option.split)

lemma get_active_limit_error_iff:
  assumes "GetActiveOptions.limit opt = Some l"
  shows "(\<exists>c. fst (get_active (Some opt) s) =
            Inl (Error (''Limit cannot exceed '' @ c)))
     = greater_than l (maxProposalLimit (initializeLimits s))"
proof (cases "greater_than l (maxProposalLimit (initializeLimits s))")
  case True
  with get_active_rejects [OF assms(1) True] show ?thesis by auto
next
  case False
  with get_active_no_limit_error [OF assms(1) False] show ?thesis by simp
qed

lemma get_active_unfiltered:
  assumes "\<forall>x. opts = Some x \<longrightarrow>
             GetActiveOptions.limit x = None
             \<and> GetActiveOptions.offset x = None
             \<and> GetActiveOptions.sort_by x = None"
  shows "requests (snd (get_active opts s)) =
     requests s @
       [\<lparr>path = ''/v1/proposals/get_active'',
         params = Map.empty\<rparr>]"
proof -
  from assms have "Option.bind opts GetActiveOptions.limit = None"
    and "Option.bind opts GetActiveOptions.offset = None"
    and "Option.bind opts GetActiveOptions.sort_by = None"
    by (cases opts; simp)+
  then show ?thesis
    by (simp add: get_active_def client_call_snd)
qed

lemma get_approvals_effect:
  "snd (get_approvals p n opts s) = s
   \<or> snd (get_approvals p n opts s) = initializeLimits s
   \<or> (\<exists>ps. snd (get_approvals p n opts s) =
          s\<lparr>requests := requests s @
             [\<lparr>path = ''/v1/proposals/get_approvals'', params = ps\<rparr>]\<rparr>)
   \<or> (\<exists>ps. snd (get_approvals p n opts s) =
          (initializeLimits s)\<lparr>requests := requests (initializeLimits s) @
             [\<lparr>path = ''/v1/proposals/get_approvals'', params = ps\<rparr>]\<rparr>)"
  by (cases "Option.bind opts GetApprovalsOptions.globalseq";
      cases "Option.bind opts GetApprovalsOptions.limit";
      cases "Option.bind opts GetApprovalsOptions.offset";
      auto simp add: get_approvals_def Let_def client_call_snd split: sum.split)

lemma get_approvals_rejects:
  assumes "GetApprovalsOptions.limit opt = Some l"
    and "greater_than l (maxApprovalLimit (initializeLimits s))"
    and "\<forall>g. GetApprovalsOptions.globalseq opt = Some g \<longrightarrow> in_uint64 g"
  shows "get_approvals p n (Some opt) s =
     (Inl (Error (''Limit cannot exceed '' @ template (maxApprovalLimit (initializeLimits s)))),
      initializeLimits s)"
  using assms
  by (auto simp add: get_approvals_def Let_def UInt64_from_in split: option.split)

lemma get_approvals_accepts:
  assumes "GetApprovalsOptions.limit opt = Some l"
    and "\<not> greater_than l (maxApprovalLimit (initializeLimits s))"
    and "in_int32 l"
    and "\<forall>v. GetApprovalsOptions.offset opt = Some v \<longrightarrow> in_int32 v"
    and "\<forall>g. GetApprovalsOptions.globalseq opt = Some g \<longrightarrow> in_uint64 g"
  shows "get_approvals p n (Some opt) s =
           client_call (last (requests (snd (get_approvals p n (Some opt) s))))
             (initializeLimits s)"
    and "path (last (requests (snd (get_approvals p n (Some opt) s)))) =
           ''/v1/proposals/get_approvals''"
    and "params (last (requests (snd (get_approvals p n (Some opt) s)))) ''limit'' =
           Some (Int32 l)"
  using assms
  by (auto simp add: get_approvals_def Let_def client_call_snd Int32_from_in UInt64_from_in
      split: option.split)

lemma get_approvals_no_Error:
  assumes "GetApprovalsOptions.limit opt = Some l"
    and "\<not> greater_than l (maxApprovalLimit (initializeLimits s))"
    and "in_int32 l"
    and "\<forall>v. GetApprovalsOptions.offset opt = Some v \<longrightarrow> in_int32 v"
    and "\<forall>g. GetApprovalsOptions.globalseq opt = Some g \<longrightarrow> in_uint64 g"
  shows "fst (get_approvals p n (Some opt) s) \<noteq> Inl (Error msg)"
  using get_approvals_accepts(1) [OF assms] client_call_no_Error by metis

lemma get_approvals_no_limit_error:
  assumes "GetApprovalsOptions.limit opt = Some l"
    and "\<not> greater_than l (maxApprovalLimit (initializeLimits s))"
  shows "fst (get_approvals p n (Some opt) s) \<noteq>
     Inl (Error (''Limit cannot exceed '' @ c))"
  using assms
  by (auto simp add: get_approvals_def Let_def client_call_fst
      split: option.split sum.split dest: Int32_from_Inl UInt64_from_Inl)

lemma get_approvals_limit_out_of_range:
  assumes "GetApprovalsOptions.limit opt = Some l"
    and "\<not> greater_than l (maxApprovalLimit (initializeLimits s))"
    and "\<not> in_int32 l"
    and "\<forall>g. GetApprovalsOptions.globalseq opt = Some g \<longrightarrow> in_uint64 g"
  shows "\<exists>msg. get_approvals p n (Some opt) s =
     (Inl (Error msg), initializeLimits s)"
  using assms
  by (auto simp add: get_approvals_def Let_def Int32_from_def in_int32_def UInt64_from_in
      split: option.split)

lemma get_approvals_limit_error_iff:
  assumes "GetApprovalsOptions.limit opt = Some l"
    and "\<forall>g. GetApprovalsOptions.globalseq opt = Some g \<longrightarrow> in_uint64 g"
  shows "(\<exists>c. fst (get_approvals p n (Some opt) s) =
            Inl (Error (''Limit cannot exceed '' @ c)))
     = greater_than l (maxApprovalLimit (initializeLimits s))"
proof (cases "greater_than l (maxApprovalLimit (initializeLimits s))")
  case True
  with get_approvals_rejects [OF assms(1) True assms(2)] show ?thesis by auto
next
  case False
  with get_approvals_no_limit_error [OF assms(1) False] show ?thesis by simp
qed

lemma get_approvals_unfiltered:
  assumes "\<forall>x. opts = Some x \<longrightarrow>
             GetApprovalsOptions.globalseq x = None
             \<and> GetApprovalsOptions.limit x = None
             \<and> GetApprovalsOptions.offset x = None"
  shows "requests (snd (get_approvals p n opts s)) =
     requests s @
       [\<lparr>path = ''/v1/proposals/get_approvals'',
         params = [''proposer'' \<mapsto> Name_from p, ''proposal_name'' \<mapsto> Name_from n]\<rparr>]"
proof -
  from assms have "Option.bind opts GetApprovalsOptions.globalseq = None"
    and "Option.bind opts GetApprovalsOptions.limit = None"
    and "Option.bind opts GetApprovalsOptions.offset = None"
    by (cases opts; simp)+
  then show ?thesis
    by (simp add: get_approvals_def client_call_snd)
qed

lemma get_activity_effect:
  "snd (get_activity a opts s) = s
   \<or> snd (get_activity a opts s) = initializeLimits s
   \<or> (\<exists>ps. snd (get_activity a opts s) =
          s\<lparr>requests := requests s @
             [\<lparr>path = ''/v1/proposals/get_activity'', params = ps\<rparr>]\<rparr>)
   \<or> (\<exists>ps. snd (get_activity a opts s) =
          (initializeLimits s)\<lparr>requests := requests (initializeLimits s) @
             [\<lparr>path = ''/v1/proposals/get_activity'', params = ps\<rparr>]\<rparr>)"
  by (cases "Option.bind opts GetActivityOptions.limit";
      cases "Option.bind opts GetActivityOptions.offset";
      auto simp add: get_activity_def Let_def client_call_snd split: sum.split)

lemma get_activity_rejects:
  assumes "GetActivityOptions.limit opt = Some l"
    and "greater_than l (maxProposalLimit (initializeLimits s))"
  shows "get_activity a (Some opt) s =
     (Inl (Error (''Limit cannot exceed '' @ template (maxProposalLimit (initializeLimits s)))),
      initializeLimits s)"
  using assms
  by (auto simp add: get_activity_def Let_def UInt64_from_in split: option.split)

lemma get_activity_accepts:
  assumes "GetActivityOptions.limit opt = Some l"
    and "\<not> greater_than l (maxProposalLimit (initializeLimits s))"
    and "in_int32 l"
    and "\<forall>v. GetActivityOptions.offset opt = Some v \<longrightarrow> in_int32 v"
  shows "get_activity a (Some opt) s =
           client_call (last (requests (snd (get_activity a (Some opt) s))))
             (initializeLimits s)"
    and "path (last (requests (snd (get_activity a (Some opt) s)))) =
           ''/v1/proposals/get_activity''"
    and "params (last (requests (snd (get_activity a (Some opt) s)))) ''limit'' =
           Some (Int32 l)"
  using assms
  by (auto simp add: get_activity_def Let_def client_call_snd Int32_from_in UInt64_from_in
      split: option.split)

lemma get_activity_no_Error:
  assumes "GetActivityOptions.limit opt = Some l"
    and "\<not> greater_than l (maxProposalLimit (initializeLimits s))"
    and "in_int32 l"
    and "\<forall>v. GetActivityOptions.offset opt = Some v \<longrightarrow> in_int32 v"
  shows "fst (get_activity a (Some opt) s) \<noteq> Inl (Error msg)"
  using get_activity_accepts(1) [OF assms] client_call_no_Error by metis

lemma get_activity_no_limit_error:
  assumes "GetActivityOptions.limit opt = Some l"
    and "\<not> greater_than l (maxProposalLimit (initializeLimits s))"
  shows "fst (get_activity a (Some opt) s) \<noteq>
     Inl (Error (''Limit cannot exceed '' @ c))"
  using assms
  by (auto simp add: get_activity_def Let_def client_call_fst
      split: option.split sum.split dest: Int32_from_Inl UInt64_from_Inl)

lemma get_activity_limit_out_of_range:
  assumes "GetActivityOptions.limit opt = Some l"
    and "\<not> greater_than l (maxProposalLimit (initializeLimits s))"
    and "\<not> in_int32 l"
  shows "\<exists>msg. get_activity a (Some opt) s =
     (Inl (Error msg), initializeLimits s)"
  using assms
  by (auto simp add: get_activity_def Let_def Int32_from_def in_int32_def UInt64_from_in
      split: option.split)

lemma get_activity_limit_error_iff:
  assumes "GetActivityOptions.limit opt = Some l"
  shows "(\<exists>c. fst (get_activity a (Some opt) s) =
            Inl (Error (''Limit cannot exceed '' @ c)))
     = greater_than l (maxProposalLimit (initializeLimits s))"
proof (cases "greater_than l (maxProposalLimit (initializeLimits s))")
  case True
  with get_activity_rejects [OF assms(1) True] show ?thesis by auto
next
  case False
  with get_activity_no_limit_error [OF assms(1) False] show ?thesis by simp
qed

lemma get_activity_unfiltered:
  assumes "\<forall>x. opts = Some x \<longrightarrow>
             GetActivityOptions.limit x = None
             \<and> GetActivityOptions.offset x = None
             \<and> GetActivityOptions.action_type x = None"
  shows "requests (snd (get_activity a opts s)) =
     requests s @
       [\<lparr>path = ''/v1/proposals/get_activity'',
         params = [''account'' \<mapsto> Name_from a]\<rparr>]"
proof -
  from assms have "Option.bind opts GetActivityOptions.limit = None"
    and "Option.bind opts GetActivityOptions.offset = None"
    and "Option.bind opts GetActivityOptions.action_type = None"
    by (cases opts; simp)+
  then show ?thesis
    by (simp add: get_activity_def client_call_snd)
qed

lemma get_approver_proposals_effect:
  "snd (get_approver_proposals a opts s) = s
   \<or> snd (get_approver_proposals a opts s) = initializeLimits s
   \<or> (\<exists>ps. snd (get_approver_proposals a opts s) =
          s\<lparr>requests := requests s @
             [\<lparr>path = ''/v1/proposals/get_approver_proposals'', params = ps\<rparr>]\<rparr>)
   \<or> (\<exists>ps. snd (get_approver_proposals a opts s) =
          (initializeLimits s)\<lparr>requests := requests (initializeLimits s) @
             [\<lparr>path = ''/v1/proposals/get_approver_proposals'', params = ps\<rparr>]\<rparr>)"
  by (cases "Option.bind opts GetApproverProposalsOptions.limit";
      cases "Option.bind opts GetApproverProposalsOptions.offset";
      auto simp add: get_approver_proposals_def Let_def client_call_snd split: sum.split)

lemma get_approver_proposals_rejects:
  assumes "GetApproverProposalsOptions.limit opt = Some l"
    and "greater_than l (maxProposalLimit (initializeLimits s))"
  shows "get_approver_proposals a (Some opt) s =
     (Inl (Error (''Limit cannot exceed '' @ template (maxProposalLimit (initializeLimits s)))),
      initializeLimits s)"
  using assms
  by (auto simp add: get_approver_proposals_def Let_def UInt64_from_in split: option.split)

lemma get_approver_proposals_accepts:
  assumes "GetApproverProposalsOptions.limit opt = Some l"
    and "\<not> greater_than l (maxProposalLimit (initializeLimits s))"
    and "in_int32 l"
    and "\<forall>v. GetApproverProposalsOptions.offset opt = Some v \<longrightarrow> in_int32 v"
  shows "get_approver_proposals a (Some opt) s =
           client_call (last (requests (snd (get_approver_proposals a (Some opt) s))))
             (initializeLimits s)"
    and "path (last (requests (snd (get_approver_proposals a (Some opt) s)))) =
           ''/v1/proposals/get_approver_proposals''"
    and "params (last (requests (snd (get_approver_proposals a (Some opt) s)))) ''limit'' =
           Some (Int32 l)"
  using assms
  by (auto simp add: get_approver_proposals_def Let_def client_call_snd Int32_from_in UInt64_from_in
      split: option.split)

lemma get_approver_proposals_no_Error:
  assumes "GetApproverProposalsOptions.limit opt = Some l"
    and "\<not> greater_than l (maxProposalLimit (initializeLimits s))"
    and "in_int32 l"
    and "\<forall>v. GetApproverProposalsOptions.offset opt = Some v \<longrightarrow> in_int32 v"
  shows "fst (get_approver_proposals a (Some opt) s) \<noteq> Inl (Error msg)"
  using get_approver_proposals_accepts(1) [OF assms] client_call_no_Error by metis

lemma get_approver_proposals_no_limit_error:
  assumes "GetApproverProposalsOptions.limit opt = Some l"
    and "\<not> greater_than l (maxProposalLimit (initializeLimits s))"
  shows "fst (get_approver_proposals a (Some opt) s) \<noteq>
     Inl (Error (''Limit cannot exceed '' @ c))"
  using assms
  by (auto simp add: get_approver_proposals_def Let_def client_call_fst
      split: option.split sum.split dest: Int32_from_Inl UInt64_from_Inl)

lemma get_approver_proposals_limit_out_of_range:
  assumes "GetApproverProposalsOptions.limit opt = Some l"
    and "\<not> greater_than l (maxProposalLimit (initializeLimits s))"
    and "\<not> in_int32 l"
  shows "\<exists>msg. get_approver_proposals a (Some opt) s =
     (Inl (Error msg), initializeLimits s)"
  using assms
  by (auto simp add: get_approver_proposals_def Let_def Int32_from_def in_int32_def UInt64_from_in
      split: option.split)

lemma get_approver_proposals_limit_error_iff:
  assumes "GetApproverProposalsOptions.limit opt = Some l"
  shows "(\<exists>c. fst (get_approver_proposals a (Some opt) s) =
            Inl (Error (''Limit cannot exceed '' @ c)))
     = greater_than l (maxProposalLimit (initializeLimits s))"
proof (cases "greater_than l (maxProposalLimit (initializeLimits s))")
  case True
  with get_approver_proposals_rejects [OF assms(1) True] show ?thesis by auto
next
  case False
  with get_approver_proposals_no_limit_error [OF assms(1) False] show ?thesis by simp
qed

lemma get_approver_proposals_unfiltered:
  assumes "\<forall>x. opts = Some x \<longrightarrow>
             GetApproverProposalsOptions.status x = None
             \<and> GetApproverProposalsOptions.include_approved x = None
             \<and> GetApproverProposalsOptions.limit x = None
             \<and> GetApproverProposalsOptions.offset x = None"
  shows "requests (snd (get_approver_proposals a opts s)) =
     requests s @
       [\<lparr>path = ''/v1/proposals/get_approver_proposals'',
         params = [''approver'' \<mapsto> Name_from a]\<rparr>]"
proof -
  from assms have "Option.bind opts GetApproverProposalsOptions.status = None"
    and "Option.bind opts GetApproverProposalsOptions.include_approved = None"
    and "Option.bind opts GetApproverProposalsOptions.limit = None"
    and "Option.bind opts GetApproverProposalsOptions.offset = None"
    by (cases opts; simp)+
  then show ?thesis
    by (simp add: get_approver_proposals_def client_call_snd)
qed

lemma search_proposals_effect:
  "snd (search_proposals q opts s) = s
   \<or> snd (search_proposals q opts s) = initializeLimits s
   \<or> (\<exists>ps. snd (search_proposals q opts s) =
          s\<lparr>requests := requests s @
             [\<lparr>path = ''/v1/proposals/search_proposals'', params = ps\<rparr>]\<rparr>)
   \<or> (\<exists>ps. snd (search_proposals q opts s) =
          (initializeLimits s)\<lparr>requests := requests (initializeLimits s) @
             [\<lparr>path = ''/v1/proposals/search_proposals'', params = ps\<rparr>]\<rparr>)"
  by (cases "Option.bind opts SearchProposalsOptions.limit";
      cases "Option.bind opts SearchProposalsOptions.offset";
      auto simp add: search_proposals_def Let_def client_call_snd split: sum.split)

lemma search_proposals_rejects:
  assumes "SearchProposalsOptions.limit opt = Some l"
    and "greater_than l (maxProposalLimit (initializeLimits s))"
  shows "search_proposals q (Some opt) s =
     (Inl (Error (''Limit cannot exceed '' @ template (maxProposalLimit (initializeLimits s)))),
      initializeLimits s)"
  using assms
  by (auto simp add: search_proposals_def Let_def UInt64_from_in split: option.split)

lemma search_proposals_accepts:
  assumes "SearchProposalsOptions.limit opt = Some l"
    and "\<not> greater_than l (maxProposalLimit (initializeLimits s))"
    and "in_int32 l"
    and "\<forall>v. SearchProposalsOptions.offset opt = Some v \<longrightarrow> in_int32 v"
  shows "search_proposals q (Some opt) s =
           client_call (last (requests (snd (search_proposals q (Some opt) s))))
             (initializeLimits s)"
    and "path (last (requests (snd (search_proposals q (Some opt) s)))) =
           ''/v1/proposals/search_proposals''"
    and "params (last (requests (snd (search_proposals q (Some opt) s)))) ''limit'' =
           Some (Int32 l)"
  using assms
  by (auto simp add: search_proposals_def Let_def client_call_snd Int32_from_in UInt64_from_in
      split: option.split)

lemma search_proposals_no_Error:
  assumes "SearchProposalsOptions.limit opt = Some l"
    and "\<not> greater_than l (maxProposalLimit (initializeLimits s))"
    and "in_int32 l"
    and "\<forall>v. SearchProposalsOptions.offset opt = Some v \<longrightarrow> in_int32 v"
  shows "fst (search_proposals q (Some opt) s) \<noteq> Inl (Error msg)"
  using search_proposals_accepts(1) [OF assms] client_call_no_Error by metis

lemma search_proposals_no_limit_error:
  assumes "SearchProposalsOptions.limit opt = Some l"
    and "\<not> greater_than l (maxProposalLimit (initializeLimits s))"
  shows "fst (search_proposals q (Some opt) s) \<noteq>
     Inl (Error (''Limit cannot exceed '' @ c))"
  using assms
  by (auto simp add: search_proposals_def Let_def client_call_fst
      split: option.split sum.split dest: Int32_from_Inl UInt64_from_Inl)

lemma search_proposals_limit_out_of_range:
  assumes "SearchProposalsOptions.limit opt = Some l"
    and "\<not> greater_than l (maxProposalLimit (initializeLimits s))"
    and "\<not> in_int32 l"
  shows "\<exists>msg. search_proposals q (Some opt) s =
     (Inl (Error msg), initializeLimits s)"
  using assms
  by (auto simp add: search_proposals_def Let_def Int32_from_def in_int32_def UInt64_from_in
      split: option.split)

lemma search_proposals_limit_error_iff:
  assumes "SearchProposalsOptions.limit opt = Some l"
  shows "(\<exists>c. fst (search_proposals q (Some opt) s) =
            Inl (Error (''Limit cannot exceed '' @ c)))
     = greater_than l (maxProposalLimit (initializeLimits s))"
proof (cases "greater_than l (maxProposalLimit (initializeLimits s))")
  case True
  with search_proposals_rejects [OF assms(1) True] show ?thesis by auto
next
  case False
  with search_proposals_no_limit_error [OF assms(1) False] show ?thesis by simp
qed

lemma search_proposals_unfiltered:
  assumes "\<forall>x. opts = Some x \<longrightarrow>
             SearchProposalsOptions.status x = None
             \<and> SearchProposalsOptions.limit x = None
             \<and> SearchProposalsOptions.offset x = None"
  shows "requests (snd (search_proposals q opts s)) =
     requests s @
       [\<lparr>path = ''/v1/proposals/search_proposals'',
         params = [''query'' \<mapsto> String q]\<rparr>]"
proof -
  from assms have "Option.bind opts SearchProposalsOptions.status = None"
    and "Option.bind opts SearchProposalsOptions.limit = None"
    and "Option.bind opts SearchProposalsOptions.offset = None"
    by (cases opts; simp)+
  then show ?thesis
    by (simp add: search_proposals_def client_call_snd)
qed

section \<open>Facts about call sequences\<close>

lemma invoke_effect:
  assumes "c \<noteq> Get_status"
  shows "invoke c s = s
     \<or> invoke c s = initializeLimits s
     \<or> (\<exists>r. path r \<in> endpoint_paths \<and> path r \<noteq> ''/v1/proposals/get_status'' \<and>
           (invoke c s = s\<lparr>requests := requests s @ [r]\<rparr>
            \<or> invoke c s =
                 (initializeLimits s)\<lparr>requests := requests (initializeLimits s) @ [r]\<rparr>))"
proof (cases c)
  case GetMaxProposalLimit
  then show ?thesis by (simp add: getMaxProposalLimit_def Let_def)
next
  case GetMaxApprovalLimit
  then show ?thesis by (simp add: getMaxApprovalLimit_def Let_def)
next
  case (Get_proposal p n opts)
  have "\<And>ps. path \<lparr>path = ''/v1/proposals/get_proposal'', params = ps\<rparr>
        \<in> endpoint_paths
      \<and> path \<lparr>path = ''/v1/proposals/get_proposal'', params = ps\<rparr>
        \<noteq> ''/v1/proposals/get_status''"
    by (simp add: endpoint_paths_def)
  moreover have "invoke c s = snd (get_proposal p n opts s)"
    using Get_proposal by simp
  ultimately show ?thesis
    using get_proposal_effect [of p n opts s] by metis
next
  case (Get_proposal_history p n opts)
  have "\<And>ps. path \<lparr>path = ''/v1/proposals/get_proposal_history'', params = ps\<rparr>
        \<in> endpoint_paths
      \<and> path \<lparr>path = ''/v1/proposals/get_proposal_history'', params = ps\<rparr>
        \<noteq> ''/v1/proposals/get_status''"
    by (simp add: endpoint_paths_def)
  moreover have "invoke c s = snd (get_proposal_history p n opts s)"
    using Get_proposal_history by simp
  ultimately show ?thesis
    using get_proposal_history_effect [of p n opts s] by metis
next
  case (Get_proposals opts)
  have "\<And>ps. path \<lparr>path = ''/v1/proposals/get_proposals'', params = ps\<rparr>
        \<in> endpoint_paths
      \<and> path \<lparr>path = ''/v1/proposals/get_proposals'', params = ps\<rparr>
        \<noteq> ''/v1/proposals/get_status''"
    by (simp add: endpoint_paths_def)
  moreover have "invoke c s = snd (get_proposals opts s)"
    using Get_proposals by simp
  ultimately show ?thesis
    using get_proposals_effect [of opts s] by metis
next
  case (Get_active opts)
  have "\<And>ps. path \<lparr>path = ''/v1/proposals/get_active'', params = ps\<rparr>
        \<in> endpoint_paths
      \<and> path \<lparr>path = ''/v1/proposals/get_active'', params = ps\<rparr>
        \<noteq> ''/v1/proposals/get_status''"
    by (simp add: endpoint_paths_def)
  moreover have "invoke c s = snd (get_active opts s)"
    using Get_active by simp
  ultimately show ?thesis
    using get_active_effect [of opts s] by metis
next
  case (Get_approvals p n opts)
  have "\<And>ps. path \<lparr>path = ''/v1/proposals/get_approvals'', params = ps\<rparr>
        \<in> endpoint_paths
      \<and> path \<lparr>path = ''/v1/proposals/get_approvals'', params = ps\<rparr>
        \<noteq> ''/v1/proposals/get_status''"
    by (simp add: endpoint_paths_def)
  moreover have "invoke c s = snd (get_approvals p n opts s)"
    using Get_approvals by simp
  ultimately show ?thesis
    using get_approvals_effect [of p n opts s] by metis
next
  case (Get_activity a opts)
  have "\<And>ps. path \<lparr>path = ''/v1/proposals/get_activity'', params = ps\<rparr>
        \<in> endpoint_paths
      \<and> path \<lparr>path = ''/v1/proposals/get_activity'', params = ps\<rparr>
        \<noteq> ''/v1/proposals/get_status''"
    by (simp add: endpoint_paths_def)
  moreover have "invoke c s = snd (get_activity a opts s)"
    using Get_activity by simp
  ultimately show ?thesis
    using get_activity_effect [of a opts s] by metis
next
  case (Get_approver_proposals a opts)
  have "\<And>ps. path \<lparr>path = ''/v1/proposals/get_approver_proposals'', params = ps\<rparr>
        \<in> endpoint_paths
      \<and> path \<lparr>path = ''/v1/proposals/get_approver_proposals'', params = ps\<rparr>
        \<noteq> ''/v1/proposals/get_status''"
    by (simp add: endpoint_paths_def)
  moreover have "invoke c s = snd (get_approver_proposals a opts s)"
    using Get_approver_proposals by simp
  ultimately show ?thesis
    using get_approver_proposals_effect [of a opts s] by metis
next
  case (Search_proposals q opts)
  have "\<And>ps. path \<lparr>path = ''/v1/proposals/search_proposals'', params = ps\<rparr>
        \<in> endpoint_paths
      \<and> path \<lparr>path = ''/v1/proposals/search_proposals'', params = ps\<rparr>
        \<noteq> ''/v1/proposals/get_status''"
    by (simp add: endpoint_paths_def)
  moreover have "invoke c s = snd (search_proposals q opts s)"
    using Search_proposals by simp
  ultimately show ?thesis
    using search_proposals_effect [of q opts s] by metis
next
  case Get_status
  with assms show ?thesis by simp
qed

lemma status_calls_snoc:
  "status_calls (rs @ [r]) =
     status_calls rs + (if path r = ''/v1/proposals/get_status'' then 1 else 0)"
  by (simp add: status_calls_def)

lemma initializeLimits_status_calls:
  "status_calls (requests (initializeLimits s))
     \<le> status_calls (requests s) + (if limitsInitialized s then 0 else 1)"
  by (simp add: initializeLimits_requests status_calls_def)

lemma invoke_potential:
  "status_calls (requests (invoke c s)) + (if limitsInitialized (invoke c s) then 0 else 1)
     \<le> status_calls (requests s) + (if limitsInitialized s then 0 else 1)
        + (if c = Get_status then 1 else 0)"
proof (cases "c = Get_status")
  case True
  then show ?thesis by (simp add: get_status_snd status_calls_snoc)
next
  case False
  have il: "status_calls (requests (initializeLimits s))
      \<le> status_calls (requests s) + (if limitsInitialized s then 0 else 1)"
    by (rule initializeLimits_status_calls)
  from invoke_effect [OF False, of s] consider
      (same) "invoke c s = s"
    | (init) "invoke c s = initializeLimits s"
    | (plain) r where "path r \<noteq> ''/v1/proposals/get_status''"
        "invoke c s = s\<lparr>requests := requests s @ [r]\<rparr>"
    | (both) r where "path r \<noteq> ''/v1/proposals/get_status''"
        "invoke c s =
           (initializeLimits s)\<lparr>requests := requests (initializeLimits s) @ [r]\<rparr>"
    by blast
  then show ?thesis
  proof cases
    case same
    with False show ?thesis by simp
  next
    case init
    with il False show ?thesis by (simp add: initializeLimits_done)
  next
    case plain
    with False show ?thesis by (simp add: status_calls_snoc)
  next
    case both
    with il False show ?thesis by (simp add: status_calls_snoc initializeLimits_done)
  qed
qed

lemma run_potential:
  "status_calls (requests (run cs s)) + (if limitsInitialized (run cs s) then 0 else 1)
     \<le> status_calls (requests s) + (if limitsInitialized s then 0 else 1)
        + direct_status_calls cs"
proof (induction cs arbitrary: s)
  case Nil
  then show ?case by (simp add: direct_status_calls_def)
next
  case (Cons c cs)
  have "status_calls (requests (run cs (invoke c s)))
          + (if limitsInitialized (run cs (invoke c s)) then 0 else 1)
        \<le> status_calls (requests (invoke c s))
          + (if limitsInitialized (invoke c s) then 0 else 1) + direct_status_calls cs"
    by (rule Cons.IH)
  moreover have "direct_status_calls (c # cs) =
      (if c = Get_status then 1 else 0) + direct_status_calls cs"
    by (simp add: direct_status_calls_def)
  ultimately show ?case
    using invoke_potential [of c s] by simp
qed

lemma invoke_initialized:
  assumes "limitsInitialized s"
  shows "limitsInitialized (invoke c s)"
    and "maxProposalLimit (invoke c s) = maxProposalLimit s"
    and "maxApprovalLimit (invoke c s) = maxApprovalLimit s"
    and "status_calls (requests (invoke c s)) =
           status_calls (requests s) + (if c = Get_status then 1 else 0)"
proof -
  have "limitsInitialized (invoke c s) \<and> maxProposalLimit (invoke c s) = maxProposalLimit s
      \<and> maxApprovalLimit (invoke c s) = maxApprovalLimit s
      \<and> status_calls (requests (invoke c s)) =
           status_calls (requests s) + (if c = Get_status then 1 else 0)"
  proof (cases "c = Get_status")
    case True
    with assms show ?thesis by (simp add: get_status_snd status_calls_snoc)
  next
    case False
    from invoke_effect [OF False, of s] initializeLimits_noop [OF assms] consider
        (init) "invoke c s = s"
      | (sent) r where "path r \<noteq> ''/v1/proposals/get_status''"
          "invoke c s = s\<lparr>requests := requests s @ [r]\<rparr>"
      by auto
    then show ?thesis
    proof cases
      case init
      with assms False show ?thesis by simp
    next
      case sent
      with assms False show ?thesis by (simp add: status_calls_snoc)
    qed
  qed
  then show "limitsInitialized (invoke c s)"
    and "maxProposalLimit (invoke c s) = maxProposalLimit s"
    and "maxApprovalLimit (invoke c s) = maxApprovalLimit s"
    and "status_calls (requests (invoke c s)) =
           status_calls (requests s) + (if c = Get_status then 1 else 0)"
    by simp_all
qed

lemma run_initialized:
  assumes "limitsInitialized s"
  shows "limitsInitialized (run cs s) \<and> maxProposalLimit (run cs s) = maxProposalLimit s
      \<and> maxApprovalLimit (run cs s) = maxApprovalLimit s
      \<and> status_calls (requests (run cs s)) = status_calls (requests s) + direct_status_calls cs"
  using assms
proof (induction cs arbitrary: s)
  case Nil
  then show ?case by (simp add: direct_status_calls_def)
next
  case (Cons c cs)
  note step = invoke_initialized [OF Cons.prems, of c]
  have "direct_status_calls (c # cs) =
      (if c = Get_status then 1 else 0) + direct_status_calls cs"
    by (simp add: direct_status_calls_def)
  with Cons.IH [OF step(1)] step show ?case by simp
qed

lemma initializeLimits_supplied:
  assumes "maxProposalLimit s = Some v" and "maxApprovalLimit s = Some w"
  shows "initializeLimits s = s\<lparr>limitsInitialized := True\<rparr>"
  using assms by (simp add: initializeLimits_def)

lemma invoke_supplied:
  assumes "maxProposalLimit s = Some v" and "maxApprovalLimit s = Some w"
  shows "maxProposalLimit (invoke c s) = Some v"
    and "maxApprovalLimit (invoke c s) = Some w"
    and "status_calls (requests (invoke c s)) =
           status_calls (requests s) + (if c = Get_status then 1 else 0)"
proof -
  have "maxProposalLimit (invoke c s) = Some v \<and> maxApprovalLimit (invoke c s) = Some w
      \<and> status_calls (requests (invoke c s)) =
           status_calls (requests s) + (if c = Get_status then 1 else 0)"
  proof (cases "c = Get_status")
    case True
    with assms show ?thesis by (simp add: get_status_snd status_calls_snoc)
  next
    case False
    note il = initializeLimits_supplied [OF assms]
    from invoke_effect [OF False, of s] consider
        (same) "invoke c s = s"
      | (init) "invoke c s = initializeLimits s"
      | (plain) r where "path r \<noteq> ''/v1/proposals/get_status''"
          "invoke c s = s\<lparr>requests := requests s @ [r]\<rparr>"
      | (both) r where "path r \<noteq> ''/v1/proposals/get_status''"
          "invoke c s =
             (initializeLimits s)\<lparr>requests := requests (initializeLimits s) @ [r]\<rparr>"
      by blast
    then show ?thesis
    proof cases
      case same
      with assms False show ?thesis by simp
    next
      case init
      with assms False show ?thesis by (simp add: il)
    next
      case plain
      with assms False show ?thesis by (simp add: status_calls_snoc)
    next
      case both
      with assms False show ?thesis by (simp add: il status_calls_snoc)
    qed
  qed
  then show "maxProposalLimit (invoke c s) = Some v"
    and "maxApprovalLimit (invoke c s) = Some w"
    and "status_calls (requests (invoke c s)) =
           status_calls (requests s) + (if c = Get_status then 1 else 0)"
    by simp_all
qed

lemma run_supplied:
  assumes "maxProposalLimit s = Some v" and "maxApprovalLimit s = Some w"
  shows "maxProposalLimit (run cs s) = Some v \<and> maxApprovalLimit (run cs s) = Some w
      \<and> status_calls (requests (run cs s)) = status_calls (requests s) + direct_status_calls cs"
  using assms
proof (induction cs arbitrary: s)
  case Nil
  then show ?case by (simp add: direct_status_calls_def)
next
  case (Cons c cs)
  note step = invoke_supplied [OF Cons.prems, of c]
  have "direct_status_calls (c # cs) =
      (if c = Get_status then 1 else 0) + direct_status_calls cs"
    by (simp add: direct_status_calls_def)
  with Cons.IH [OF step(1) step(2)] step(3) show ?case by simp
qed

lemma invoke_paths:
  "set (map path (requests (invoke c s))) \<subseteq> set (map path (requests s)) \<union> endpoint_paths"
proof (cases "c = Get_status")
  case True
  then show ?thesis by (auto simp add: get_status_snd endpoint_paths_def)
next
  case False
  have il: "set (map path (requests (initializeLimits s)))
      \<subseteq> set (map path (requests s)) \<union> endpoint_paths"
    by (auto simp add: initializeLimits_requests endpoint_paths_def)
  from invoke_effect [OF False, of s] consider
      (same) "invoke c s = s"
    | (init) "invoke c s = initializeLimits s"
    | (plain) r where "path r \<in> endpoint_paths"
        "invoke c s = s\<lparr>requests := requests s @ [r]\<rparr>"
    | (both) r where "path r \<in> endpoint_paths"
        "invoke c s =
           (initializeLimits s)\<lparr>requests := requests (initializeLimits s) @ [r]\<rparr>"
    by blast
  then show ?thesis
  proof cases
    case same
    then show ?thesis by auto
  next
    case init
    with il show ?thesis by simp
  next
    case plain
    then show ?thesis by auto
  next
    case both
    with il show ?thesis by auto
  qed
qed

lemma run_paths:
  "set (map path (requests (run cs s))) \<subseteq> set (map path (requests s)) \<union> endpoint_paths"
proof (induction cs arbitrary: s)
  case Nil
  then show ?case by simp
next
  case (Cons c cs)
  have "set (map path (requests (run cs (invoke c s))))
      \<subseteq> set (map path (requests (invoke c s))) \<union> endpoint_paths"
    by (rule Cons.IH)
  with invoke_paths [of c s] show ?case
    by (simp only: run.simps) blast
qed

text \<open>
  In every state reached from construction, a client marked as initialised has both limits
  set; so after discovery both ceilings are numbers, whatever was called before.
\<close>

lemma initializeLimits_resolves:
  assumes "limitsInitialized s \<longrightarrow> maxProposalLimit s \<noteq> None \<and> maxApprovalLimit s \<noteq> None"
  shows "maxProposalLimit (initializeLimits s) \<noteq> None
      \<and> maxApprovalLimit (initializeLimits s) \<noteq> None"
  using assms
  by (auto simp add: initializeLimits_def get_status_def client_call_def Let_def
      split: sum.split)

lemma invoke_consistent:
  assumes "limitsInitialized s \<longrightarrow> maxProposalLimit s \<noteq> None \<and> maxApprovalLimit s \<noteq> None"
  shows "limitsInitialized (invoke c s) \<longrightarrow>
      maxProposalLimit (invoke c s) \<noteq> None \<and> maxApprovalLimit (invoke c s) \<noteq> None"
proof (cases "c = Get_status")
  case True
  with assms show ?thesis by (simp add: get_status_snd)
next
  case False
  note il = initializeLimits_resolves [OF assms]
  from invoke_effect [OF False, of s] consider
      (same) "invoke c s = s"
    | (init) "invoke c s = initializeLimits s"
    | (plain) r where "invoke c s = s\<lparr>requests := requests s @ [r]\<rparr>"
    | (both) r where
        "invoke c s =
           (initializeLimits s)\<lparr>requests := requests (initializeLimits s) @ [r]\<rparr>"
    by blast
  then show ?thesis
  proof cases
    case same
    with assms show ?thesis by simp
  next
    case init
    with il show ?thesis by simp
  next
    case plain
    with assms show ?thesis by simp
  next
    case both
    with il show ?thesis by simp
  qed
qed

lemma run_consistent:
  assumes "limitsInitialized s \<longrightarrow> maxProposalLimit s \<noteq> None \<and> maxApprovalLimit s \<noteq> None"
  shows "limitsInitialized (run cs s) \<longrightarrow>
      maxProposalLimit (run cs s) \<noteq> None \<and> maxApprovalLimit (run cs s) \<noteq> None"
  using assms
proof (induction cs arbitrary: s)
  case Nil
  then show ?case by simp
next
  case (Cons c cs)
  from invoke_consistent [OF Cons.prems, of c] show ?case
    by (simp add: Cons.IH)
qed

lemma constructed_resolves:
  "\<exists>mp ma. maxProposalLimit (initializeLimits (run cs (constructor tr opts))) = Some mp
      \<and> maxApprovalLimit (initializeLimits (run cs (constructor tr opts))) = Some ma"
proof -
  have "limitsInitialized (constructor tr opts) \<longrightarrow>
      maxProposalLimit (constructor tr opts) \<noteq> None
      \<and> maxApprovalLimit (constructor tr opts) \<noteq> None"
    by (simp add: constructor_def)
  from initializeLimits_resolves [OF run_consistent [OF this, of cs]] show ?thesis
    by auto
qed

section \<open>Limit discovery\<close>

text \<open>
  C4. When the status call of limit discovery fails with a transport error, whatever the
  error, discovery does not pass it on: getMaxProposalLimit resolves to 20 and
  getMaxApprovalLimit to 100, each for a limit that was not already set, a limit already set
  is kept, and both calls return a value and not an error, in either order.
\<close>

theorem discovery_absorbs_transport_failure:
  assumes "\<not> limitsInitialized s"
    and "client s (requests s)
           \<lparr>path = ''/v1/proposals/get_status'', params = Map.empty\<rparr> = Inl e"
  shows "fst (getMaxProposalLimit s) =
           Inr (Some (case maxProposalLimit s of None \<Rightarrow> 20 | Some v \<Rightarrow> v))
       \<and> fst (getMaxApprovalLimit s) =
           Inr (Some (case maxApprovalLimit s of None \<Rightarrow> 100 | Some v \<Rightarrow> v))
       \<and> fst (getMaxApprovalLimit (snd (getMaxProposalLimit s))) =
           Inr (Some (case maxApprovalLimit s of None \<Rightarrow> 100 | Some v \<Rightarrow> v))
       \<and> fst (getMaxProposalLimit (snd (getMaxApprovalLimit s))) =
           Inr (Some (case maxProposalLimit s of None \<Rightarrow> 20 | Some v \<Rightarrow> v))"
  using initializeLimits_failed [OF assms]
  by (simp add: getMaxProposalLimit_def getMaxApprovalLimit_def Let_def initializeLimits_idem)

theorem discovery_absorbs_transport_failure_witness:
  "fst (getMaxProposalLimit (constructor failing None)) = Inr (Some 20)
   \<and> fst (getMaxApprovalLimit (snd (getMaxProposalLimit (constructor failing None)))) =
       Inr (Some 100)
   \<and> fst (getMaxApprovalLimit (constructor failing None)) = Inr (Some 100)"
proof -
  have a: "\<not> limitsInitialized (constructor failing None)"
    by (simp add: constructor_def)
  have b: "client (constructor failing None) (requests (constructor failing None))
             \<lparr>path = ''/v1/proposals/get_status'', params = Map.empty\<rparr> =
           Inl ''Network error''"
    by (simp add: constructor_def failing_def)
  show ?thesis
    using discovery_absorbs_transport_failure [OF a b]
    by (simp add: constructor_def)
qed

text \<open>
  C5. Discovery happens at most once. Running it again after it has completed changes
  nothing. Once it has completed, any sequence of calls leaves both limits as they are and
  sends no status request beyond the caller's own get_status calls. Counted from
  construction, any sequence of calls sends at most one status request beyond the caller's
  own. A second getMaxProposalLimit returns what the first returned and sends nothing.
\<close>

theorem discovery_at_most_once:
  "initializeLimits (initializeLimits s) = initializeLimits s
   \<and> limitsInitialized (run cs (initializeLimits s))
   \<and> maxProposalLimit (run cs (initializeLimits s)) = maxProposalLimit (initializeLimits s)
   \<and> maxApprovalLimit (run cs (initializeLimits s)) = maxApprovalLimit (initializeLimits s)
   \<and> status_calls (requests (run cs (initializeLimits s))) =
       status_calls (requests (initializeLimits s)) + direct_status_calls cs
   \<and> status_calls (requests (run cs (constructor tr opts))) \<le> 1 + direct_status_calls cs
   \<and> fst (getMaxProposalLimit (snd (getMaxProposalLimit s))) = fst (getMaxProposalLimit s)
   \<and> requests (snd (getMaxProposalLimit (snd (getMaxProposalLimit s)))) =
       requests (snd (getMaxProposalLimit s))"
proof -
  have "status_calls (requests (run cs (constructor tr opts)))
          + (if limitsInitialized (run cs (constructor tr opts)) then 0 else 1)
        \<le> status_calls (requests (constructor tr opts))
          + (if limitsInitialized (constructor tr opts) then 0 else 1)
          + direct_status_calls cs"
    by (rule run_potential)
  then have "status_calls (requests (run cs (constructor tr opts)))
        \<le> 1 + direct_status_calls cs"
    by (simp add: constructor_def status_calls_def split: if_splits)
  then show ?thesis
    using run_initialized [OF initializeLimits_done, of cs s]
    by (simp add: initializeLimits_idem getMaxProposalLimit_def Let_def)
qed

theorem discovery_at_most_once_witness:
  "status_calls (requests (run [GetMaxProposalLimit, GetMaxProposalLimit, GetMaxApprovalLimit]
      (constructor (serving (status_with (Some 20) (Some 100))) None))) = 1
   \<and> fst (getMaxProposalLimit (snd (getMaxProposalLimit
        (constructor (serving (status_with (Some 20) (Some 100))) None)))) = Inr (Some 20)"
proof -
  have "status_calls (requests (run [GetMaxProposalLimit, GetMaxProposalLimit, GetMaxApprovalLimit]
      (constructor (serving (status_with (Some 20) (Some 100))) None))) \<noteq> 0"
    by (simp add: constructor_def getMaxProposalLimit_def getMaxApprovalLimit_def
        initializeLimits_def get_status_def client_call_def serving_def status_with_def
        status_calls_def Let_def)
  moreover have "fst (getMaxProposalLimit
      (constructor (serving (status_with (Some 20) (Some 100))) None)) = Inr (Some 20)"
    by (simp add: constructor_def getMaxProposalLimit_def
        initializeLimits_def get_status_def client_call_def serving_def status_with_def
        or_default_def Let_def)
  ultimately show ?thesis
    using discovery_at_most_once
      [of "constructor (serving (status_with (Some 20) (Some 100))) None"
          "[GetMaxProposalLimit, GetMaxProposalLimit, GetMaxApprovalLimit]"
          "serving (status_with (Some 20) (Some 100))" None]
    by (simp add: direct_status_calls_def)
qed

text \<open>
  C6. When both limits are given at construction, discovery never sends a status request:
  after any sequence of calls the status requests sent are exactly the caller's own
  get_status calls, and getMaxProposalLimit and getMaxApprovalLimit return the two given
  values and send nothing.
\<close>

theorem supplied_limits_skip_discovery:
  assumes "MsigsClientOptions.maxProposalLimit given = Some mp"
    and "MsigsClientOptions.maxApprovalLimit given = Some ma"
  shows "status_calls (requests (run cs (constructor tr (Some given)))) = direct_status_calls cs
       \<and> getMaxProposalLimit (run cs (constructor tr (Some given))) =
           (Inr (Some mp), (run cs (constructor tr (Some given)))\<lparr>limitsInitialized := True\<rparr>)
       \<and> getMaxApprovalLimit (run cs (constructor tr (Some given))) =
           (Inr (Some ma), (run cs (constructor tr (Some given)))\<lparr>limitsInitialized := True\<rparr>)"
proof -
  have p: "maxProposalLimit (constructor tr (Some given)) = Some mp"
    and a: "maxApprovalLimit (constructor tr (Some given)) = Some ma"
    using assms by (simp_all add: constructor_def)
  have r: "maxProposalLimit (run cs (constructor tr (Some given))) = Some mp
      \<and> maxApprovalLimit (run cs (constructor tr (Some given))) = Some ma
      \<and> status_calls (requests (run cs (constructor tr (Some given)))) =
          status_calls (requests (constructor tr (Some given))) + direct_status_calls cs"
    by (rule run_supplied [OF p a])
  have "status_calls (requests (constructor tr (Some given))) = 0"
    by (simp add: constructor_def status_calls_def)
  with r show ?thesis
    by (simp add: getMaxProposalLimit_def getMaxApprovalLimit_def Let_def
        initializeLimits_supplied [of _ mp ma])
qed

theorem supplied_limits_skip_discovery_witness:
  "status_calls (requests (run [GetMaxProposalLimit, GetMaxApprovalLimit]
      (constructor failing
         (Some \<lparr>MsigsClientOptions.maxProposalLimit = Some 50,
                MsigsClientOptions.maxApprovalLimit = Some 200\<rparr>)))) = 0
   \<and> fst (getMaxProposalLimit (constructor failing
         (Some \<lparr>MsigsClientOptions.maxProposalLimit = Some 50,
                MsigsClientOptions.maxApprovalLimit = Some 200\<rparr>))) = Inr (Some 50)
   \<and> fst (getMaxApprovalLimit (constructor failing
         (Some \<lparr>MsigsClientOptions.maxProposalLimit = Some 50,
                MsigsClientOptions.maxApprovalLimit = Some 200\<rparr>))) = Inr (Some 200)"
proof -
  have p: "MsigsClientOptions.maxProposalLimit
      \<lparr>MsigsClientOptions.maxProposalLimit = Some 50,
       MsigsClientOptions.maxApprovalLimit = Some 200\<rparr> = Some 50"
    by simp
  have a: "MsigsClientOptions.maxApprovalLimit
      \<lparr>MsigsClientOptions.maxProposalLimit = Some 50,
       MsigsClientOptions.maxApprovalLimit = Some 200\<rparr> = Some 200"
    by simp
  show ?thesis
    using supplied_limits_skip_discovery
        [OF p a, of "[GetMaxProposalLimit, GetMaxApprovalLimit]" failing]
      supplied_limits_skip_discovery [OF p a, of "[]" failing]
    by (simp add: direct_status_calls_def)
qed

text \<open>
  C9. When the status call of discovery succeeds and the status object carries 0 as
  max_proposal_results (or as max_approval_results), a limit not already set resolves to the
  default 20 (or 100) and not to 0, as it does when the field is missing; any other value of
  the field is taken as the limit.
\<close>

theorem zero_ceiling_is_defaulted:
  assumes "\<not> limitsInitialized s"
    and "client s (requests s)
           \<lparr>path = ''/v1/proposals/get_status'', params = Map.empty\<rparr> =
           Inr (GetStatusResponse st)"
  shows "(maxProposalLimit s = None \<and> max_proposal_results st = Some 0 \<longrightarrow>
            fst (getMaxProposalLimit s) = Inr (Some 20))
       \<and> (maxApprovalLimit s = None \<and> max_approval_results st = Some 0 \<longrightarrow>
            fst (getMaxApprovalLimit s) = Inr (Some 100))
       \<and> (maxProposalLimit s = None \<and> max_proposal_results st = None \<longrightarrow>
            fst (getMaxProposalLimit s) = Inr (Some 20))
       \<and> (maxApprovalLimit s = None \<and> max_approval_results st = None \<longrightarrow>
            fst (getMaxApprovalLimit s) = Inr (Some 100))
       \<and> (maxProposalLimit s = None \<and> max_proposal_results st = Some v \<and> v \<noteq> 0 \<longrightarrow>
            fst (getMaxProposalLimit s) = Inr (Some v))
       \<and> (maxApprovalLimit s = None \<and> max_approval_results st = Some v \<and> v \<noteq> 0 \<longrightarrow>
            fst (getMaxApprovalLimit s) = Inr (Some v))"
  using initializeLimits_answered [OF assms(1) _ assms(2)]
  by (simp add: getMaxProposalLimit_def getMaxApprovalLimit_def Let_def or_default_def)

theorem zero_ceiling_is_defaulted_witness:
  "fst (getMaxProposalLimit (constructor (serving (status_with (Some 0) (Some 0))) None)) =
     Inr (Some 20)
   \<and> fst (getMaxApprovalLimit (constructor (serving (status_with (Some 0) (Some 0))) None)) =
     Inr (Some 100)"
proof -
  have a: "\<not> limitsInitialized (constructor (serving (status_with (Some 0) (Some 0))) None)"
    by (simp add: constructor_def)
  have b: "client (constructor (serving (status_with (Some 0) (Some 0))) None)
             (requests (constructor (serving (status_with (Some 0) (Some 0))) None))
             \<lparr>path = ''/v1/proposals/get_status'', params = Map.empty\<rparr> =
           Inr (GetStatusResponse (status_with (Some 0) (Some 0)))"
    by (simp add: constructor_def serving_def)
  show ?thesis
    using zero_ceiling_is_defaulted [OF a b]
    by (simp add: constructor_def status_with_def)
qed

section \<open>The endpoints the client names\<close>

text \<open>
  C8. The class has no member named debug_proposal, and whatever calls are made on a client,
  every request it hands to the transport goes to one of the nine endpoint paths its methods
  name, none of which is a debug or diagnostics path.
\<close>

theorem no_debug_operation:
  "''debug_proposal'' \<notin> set MsigsClient_members
   \<and> set (map path (requests (run cs (constructor tr opts)))) \<subseteq> endpoint_paths
   \<and> endpoint_paths =
       {''/v1/proposals/get_proposal'', ''/v1/proposals/get_proposal_history'',
        ''/v1/proposals/get_proposals'', ''/v1/proposals/get_active'',
        ''/v1/proposals/get_approvals'', ''/v1/proposals/get_activity'',
        ''/v1/proposals/get_approver_proposals'', ''/v1/proposals/search_proposals'',
        ''/v1/proposals/get_status''}"
proof -
  have "set (map path (requests (run cs (constructor tr opts))))
      \<subseteq> set (map path (requests (constructor tr opts))) \<union> endpoint_paths"
    by (rule run_paths)
  moreover have "requests (constructor tr opts) = []"
    by (simp add: constructor_def)
  moreover have "''debug_proposal'' \<notin> set MsigsClient_members"
    by (simp add: MsigsClient_members_def)
  ultimately show ?thesis
    by (simp add: endpoint_paths_def)
qed

section \<open>Limit validation\<close>

text \<open>
  C2. For each of the seven operations that take a limit: when the limit given is greater than
  the ceiling that applies after discovery, the call fails with the error whose message is
  "Limit cannot exceed " followed by the ceiling in decimal, and the client is left as
  discovery left it. So the operation's own endpoint is not called; the only request that can
  have gone out is the status request of discovery. Both ceilings are numbers after discovery
  in every state reached from construction (\<open>constructed_resolves\<close>); they are taken to be
  safe integers, which is where the decimal notation is the one the source prints. In
  get_approvals the version sequence number is converted before the limit is looked at, so
  there it is absent or a safe integer in the range of the wire type.
\<close>

theorem limit_above_ceiling_is_rejected:
  assumes "maxProposalLimit (initializeLimits s) = Some mp"
    and "maxApprovalLimit (initializeLimits s) = Some ma"
    and "safe_integer mp" and "safe_integer ma"
  shows
    "(GetProposalHistoryOptions.limit oh = Some l \<and> mp < l \<longrightarrow>
        get_proposal_history p n (Some oh) s =
          (Inl (Error (''Limit cannot exceed '' @ string_of_number mp)),
           initializeLimits s))
     \<and> (GetProposalsOptions.limit ol = Some l \<and> mp < l \<longrightarrow>
        get_proposals (Some ol) s =
          (Inl (Error (''Limit cannot exceed '' @ string_of_number mp)),
           initializeLimits s))
     \<and> (GetActiveOptions.limit oa = Some l \<and> mp < l \<longrightarrow>
        get_active (Some oa) s =
          (Inl (Error (''Limit cannot exceed '' @ string_of_number mp)),
           initializeLimits s))
     \<and> (GetApprovalsOptions.limit ot = Some l \<and> ma < l
          \<and> (\<forall>g. GetApprovalsOptions.globalseq ot = Some g \<longrightarrow>
              in_uint64 g \<and> safe_integer g) \<longrightarrow>
        get_approvals p n (Some ot) s =
          (Inl (Error (''Limit cannot exceed '' @ string_of_number ma)),
           initializeLimits s))
     \<and> (GetActivityOptions.limit oc = Some l \<and> mp < l \<longrightarrow>
        get_activity a (Some oc) s =
          (Inl (Error (''Limit cannot exceed '' @ string_of_number mp)),
           initializeLimits s))
     \<and> (GetApproverProposalsOptions.limit ov = Some l \<and> mp < l \<longrightarrow>
        get_approver_proposals a (Some ov) s =
          (Inl (Error (''Limit cannot exceed '' @ string_of_number mp)),
           initializeLimits s))
     \<and> (SearchProposalsOptions.limit os = Some l \<and> mp < l \<longrightarrow>
        search_proposals q (Some os) s =
          (Inl (Error (''Limit cannot exceed '' @ string_of_number mp)),
           initializeLimits s))
     \<and> (requests (initializeLimits s) = requests s
        \<or> requests (initializeLimits s) =
            requests s @ [\<lparr>path = ''/v1/proposals/get_status'', params = Map.empty\<rparr>])"
    (is "?c0 \<and> ?c1 \<and> ?c2 \<and> ?c3 \<and> ?c4 \<and> ?c5 \<and> ?c6 \<and> ?sent")
proof -
  have gp: "\<And>k. mp < k \<Longrightarrow>
      greater_than k (maxProposalLimit (initializeLimits s))"
    and ga: "\<And>k. ma < k \<Longrightarrow>
      greater_than k (maxApprovalLimit (initializeLimits s))"
    using assms(1,2) by (simp_all add: greater_than_def)
  have tp: "template (maxProposalLimit (initializeLimits s)) = string_of_number mp"
    and ta: "template (maxApprovalLimit (initializeLimits s)) = string_of_number ma"
    using assms(1,2) by (simp_all add: template_def)
  have c0: ?c0
    using get_proposal_history_rejects [of oh l s p n] gp [of l] tp
    by simp
  have c1: ?c1
    using get_proposals_rejects [of ol l s] gp [of l] tp
    by simp
  have c2: ?c2
    using get_active_rejects [of oa l s] gp [of l] tp
    by simp
  have c3: ?c3
    using get_approvals_rejects [of ot l s p n] ga [of l] ta
    by simp
  have c4: ?c4
    using get_activity_rejects [of oc l s a] gp [of l] tp
    by simp
  have c5: ?c5
    using get_approver_proposals_rejects [of ov l s a] gp [of l] tp
    by simp
  have c6: ?c6
    using search_proposals_rejects [of os l s q] gp [of l] tp
    by simp
  have sent: ?sent
    by (simp add: initializeLimits_requests)
  from c0 c1 c2 c3 c4 c5 c6 sent show ?thesis by blast
qed

theorem limit_above_ceiling_is_rejected_witness:
  "fst (get_proposals (Some (proposals_limit 150)) (constructor failing None)) =
     Inl (Error ''Limit cannot exceed 20'')
   \<and> fst (get_approvals ''alice'' ''upgrade'' (Some (approvals_limit 150))
            (constructor failing None)) =
     Inl (Error ''Limit cannot exceed 100'')
   \<and> requests (snd (get_proposals (Some (proposals_limit 150)) (constructor failing None))) =
     [\<lparr>path = ''/v1/proposals/get_status'', params = Map.empty\<rparr>]"
proof -
  have p: "maxProposalLimit (initializeLimits (constructor failing None)) = Some 20"
    and a: "maxApprovalLimit (initializeLimits (constructor failing None)) = Some 100"
    and r: "requests (initializeLimits (constructor failing None)) =
        [\<lparr>path = ''/v1/proposals/get_status'', params = Map.empty\<rparr>]"
    by (simp_all add: constructor_def failing_def initializeLimits_def get_status_def
        client_call_def Let_def)
  have sp: "safe_integer 20" and sa: "safe_integer 100"
    by (simp_all add: safe_integer_def)
  show ?thesis
    using limit_above_ceiling_is_rejected [OF p a sp sa, where l = 150
        and ol = "(proposals_limit 150)" and ot = "(approvals_limit 150)"
        and p = "''alice''" and n = "''upgrade''"]
    by (simp add: r string_of_number_def digit_def
        proposals_limit_def approvals_limit_def proposals_unfiltered_def)
qed

text \<open>
  C3. Which ceiling decides. For get_approvals a given limit is refused with the error
  "Limit cannot exceed ..." exactly when it is greater than the approval ceiling that applies
  after discovery; for get_proposal_history, get_proposals, get_active, get_activity,
  get_approver_proposals and search_proposals exactly when it is greater than the proposal
  ceiling. In get_approvals the version sequence number is converted before the limit is
  looked at, so there it is absent or a safe integer in the range of the wire type.
\<close>

theorem ceiling_of_each_operation:
  "(GetProposalHistoryOptions.limit oh = Some l \<longrightarrow>
      ((\<exists>c. fst (get_proposal_history p n (Some oh) s) =
            Inl (Error (''Limit cannot exceed '' @ c)))
       = (\<exists>m. maxProposalLimit (initializeLimits s) = Some m \<and> m < l)))
   \<and> (GetProposalsOptions.limit ol = Some l \<longrightarrow>
      ((\<exists>c. fst (get_proposals (Some ol) s) =
            Inl (Error (''Limit cannot exceed '' @ c)))
       = (\<exists>m. maxProposalLimit (initializeLimits s) = Some m \<and> m < l)))
   \<and> (GetActiveOptions.limit oa = Some l \<longrightarrow>
      ((\<exists>c. fst (get_active (Some oa) s) =
            Inl (Error (''Limit cannot exceed '' @ c)))
       = (\<exists>m. maxProposalLimit (initializeLimits s) = Some m \<and> m < l)))
   \<and> (GetApprovalsOptions.limit ot = Some l
        \<and> (\<forall>g. GetApprovalsOptions.globalseq ot = Some g \<longrightarrow>
              in_uint64 g \<and> safe_integer g) \<longrightarrow>
      ((\<exists>c. fst (get_approvals p n (Some ot) s) =
            Inl (Error (''Limit cannot exceed '' @ c)))
       = (\<exists>m. maxApprovalLimit (initializeLimits s) = Some m \<and> m < l)))
   \<and> (GetActivityOptions.limit oc = Some l \<longrightarrow>
      ((\<exists>c. fst (get_activity a (Some oc) s) =
            Inl (Error (''Limit cannot exceed '' @ c)))
       = (\<exists>m. maxProposalLimit (initializeLimits s) = Some m \<and> m < l)))
   \<and> (GetApproverProposalsOptions.limit ov = Some l \<longrightarrow>
      ((\<exists>c. fst (get_approver_proposals a (Some ov) s) =
            Inl (Error (''Limit cannot exceed '' @ c)))
       = (\<exists>m. maxProposalLimit (initializeLimits s) = Some m \<and> m < l)))
   \<and> (SearchProposalsOptions.limit os = Some l \<longrightarrow>
      ((\<exists>c. fst (search_proposals q (Some os) s) =
            Inl (Error (''Limit cannot exceed '' @ c)))
       = (\<exists>m. maxProposalLimit (initializeLimits s) = Some m \<and> m < l)))"
  (is "?c0 \<and> ?c1 \<and> ?c2 \<and> ?c3 \<and> ?c4 \<and> ?c5 \<and> ?c6")
proof -
  have c0: ?c0
    unfolding greater_than_iff [symmetric]
    using get_proposal_history_limit_error_iff [where opt = oh and l = l and s = s]
    by blast
  have c1: ?c1
    unfolding greater_than_iff [symmetric]
    using get_proposals_limit_error_iff [where opt = ol and l = l and s = s]
    by blast
  have c2: ?c2
    unfolding greater_than_iff [symmetric]
    using get_active_limit_error_iff [where opt = oa and l = l and s = s]
    by blast
  have c3: ?c3
    unfolding greater_than_iff [symmetric]
    using get_approvals_limit_error_iff [where opt = ot and l = l and s = s]
    by blast
  have c4: ?c4
    unfolding greater_than_iff [symmetric]
    using get_activity_limit_error_iff [where opt = oc and l = l and s = s]
    by blast
  have c5: ?c5
    unfolding greater_than_iff [symmetric]
    using get_approver_proposals_limit_error_iff [where opt = ov and l = l and s = s]
    by blast
  have c6: ?c6
    unfolding greater_than_iff [symmetric]
    using search_proposals_limit_error_iff [where opt = os and l = l and s = s]
    by blast
  from c0 c1 c2 c3 c4 c5 c6 show ?thesis by blast
qed

theorem ceiling_of_each_operation_witness:
  "(\<exists>c. fst (get_proposals (Some (proposals_limit 50)) (constructor failing None)) =
          Inl (Error (''Limit cannot exceed '' @ c)))
   \<and> \<not> (\<exists>c. fst (get_approvals ''alice'' ''upgrade'' (Some (approvals_limit 50))
             (constructor failing None)) = Inl (Error (''Limit cannot exceed '' @ c)))"
proof -
  have p: "maxProposalLimit (initializeLimits (constructor failing None)) = Some 20"
    and a: "maxApprovalLimit (initializeLimits (constructor failing None)) = Some 100"
    by (simp_all add: constructor_def failing_def initializeLimits_def get_status_def
        client_call_def Let_def)
  show ?thesis
    using ceiling_of_each_operation [where l = 50 and s = "(constructor failing None)"
        and ol = "(proposals_limit 50)" and ot = "(approvals_limit 50)"
        and p = "''alice''" and n = "''upgrade''"]
    by (simp add: p a proposals_limit_def approvals_limit_def proposals_unfiltered_def)
qed

text \<open>
  C10. The comparison is strict. For each of the seven operations that take a limit: when the
  limit given equals the ceiling that applies after discovery, the call never fails with the
  error "Limit cannot exceed ...". When the limit is in the range of a 32-bit integer, and so is
  the offset if one is given (and, in get_approvals, the version sequence number if given is a
  safe integer in the range of a 64-bit unsigned integer), the call fails with no local error
  at all: it hands
  the transport one request, to the operation's endpoint, whose parameter limit is the given
  limit as a wire integer, and returns what the transport answers. When the limit is outside
  the range of a 32-bit integer, its conversion throws and the client is left as discovery
  left it, with no request to the operation's endpoint.
\<close>

theorem limit_equal_to_ceiling_is_sent:
  "(GetProposalHistoryOptions.limit oh = Some l
        \<and> maxProposalLimit (initializeLimits s) = Some l \<longrightarrow>
       (\<forall>c. fst (get_proposal_history p n (Some oh) s) \<noteq>
            Inl (Error (''Limit cannot exceed '' @ c)))
       \<and> (in_int32 l
            \<and> (\<forall>v. GetProposalHistoryOptions.offset oh = Some v \<longrightarrow> in_int32 v) \<longrightarrow>
          (\<forall>msg. fst (get_proposal_history p n (Some oh) s) \<noteq> Inl (Error msg))
          \<and> get_proposal_history p n (Some oh) s =
              client_call (last (requests (snd (get_proposal_history p n (Some oh) s))))
                (initializeLimits s)
          \<and> path (last (requests (snd (get_proposal_history p n (Some oh) s)))) =
              ''/v1/proposals/get_proposal_history''
          \<and> params (last (requests (snd (get_proposal_history p n (Some oh) s)))) ''limit'' =
              Some (Int32 l))
       \<and> (\<not> in_int32 l \<longrightarrow>
          (\<exists>msg. get_proposal_history p n (Some oh) s =
             (Inl (Error msg), initializeLimits s))))
   \<and> (GetProposalsOptions.limit ol = Some l
        \<and> maxProposalLimit (initializeLimits s) = Some l \<longrightarrow>
       (\<forall>c. fst (get_proposals (Some ol) s) \<noteq>
            Inl (Error (''Limit cannot exceed '' @ c)))
       \<and> (in_int32 l
            \<and> (\<forall>v. GetProposalsOptions.offset ol = Some v \<longrightarrow> in_int32 v) \<longrightarrow>
          (\<forall>msg. fst (get_proposals (Some ol) s) \<noteq> Inl (Error msg))
          \<and> get_proposals (Some ol) s =
              client_call (last (requests (snd (get_proposals (Some ol) s))))
                (initializeLimits s)
          \<and> path (last (requests (snd (get_proposals (Some ol) s)))) =
              ''/v1/proposals/get_proposals''
          \<and> params (last (requests (snd (get_proposals (Some ol) s)))) ''limit'' =
              Some (Int32 l))
       \<and> (\<not> in_int32 l \<longrightarrow>
          (\<exists>msg. get_proposals (Some ol) s =
             (Inl (Error msg), initializeLimits s))))
   \<and> (GetActiveOptions.limit oa = Some l
        \<and> maxProposalLimit (initializeLimits s) = Some l \<longrightarrow>
       (\<forall>c. fst (get_active (Some oa) s) \<noteq>
            Inl (Error (''Limit cannot exceed '' @ c)))
       \<and> (in_int32 l
            \<and> (\<forall>v. GetActiveOptions.offset oa = Some v \<longrightarrow> in_int32 v) \<longrightarrow>
          (\<forall>msg. fst (get_active (Some oa) s) \<noteq> Inl (Error msg))
          \<and> get_active (Some oa) s =
              client_call (last (requests (snd (get_active (Some oa) s))))
                (initializeLimits s)
          \<and> path (last (requests (snd (get_active (Some oa) s)))) =
              ''/v1/proposals/get_active''
          \<and> params (last (requests (snd (get_active (Some oa) s)))) ''limit'' =
              Some (Int32 l))
       \<and> (\<not> in_int32 l \<longrightarrow>
          (\<exists>msg. get_active (Some oa) s =
             (Inl (Error msg), initializeLimits s))))
   \<and> (GetApprovalsOptions.limit ot = Some l
        \<and> maxApprovalLimit (initializeLimits s) = Some l \<longrightarrow>
       (\<forall>c. fst (get_approvals p n (Some ot) s) \<noteq>
            Inl (Error (''Limit cannot exceed '' @ c)))
       \<and> (in_int32 l
            \<and> (\<forall>v. GetApprovalsOptions.offset ot = Some v \<longrightarrow> in_int32 v)
            \<and> (\<forall>g. GetApprovalsOptions.globalseq ot = Some g \<longrightarrow>
              in_uint64 g \<and> safe_integer g) \<longrightarrow>
          (\<forall>msg. fst (get_approvals p n (Some ot) s) \<noteq> Inl (Error msg))
          \<and> get_approvals p n (Some ot) s =
              client_call (last (requests (snd (get_approvals p n (Some ot) s))))
                (initializeLimits s)
          \<and> path (last (requests (snd (get_approvals p n (Some ot) s)))) =
              ''/v1/proposals/get_approvals''
          \<and> params (last (requests (snd (get_approvals p n (Some ot) s)))) ''limit'' =
              Some (Int32 l))
       \<and> (\<not> in_int32 l \<and> (\<forall>g. GetApprovalsOptions.globalseq ot = Some g \<longrightarrow>
              in_uint64 g \<and> safe_integer g) \<longrightarrow>
          (\<exists>msg. get_approvals p n (Some ot) s =
             (Inl (Error msg), initializeLimits s))))
   \<and> (GetActivityOptions.limit oc = Some l
        \<and> maxProposalLimit (initializeLimits s) = Some l \<longrightarrow>
       (\<forall>c. fst (get_activity a (Some oc) s) \<noteq>
            Inl (Error (''Limit cannot exceed '' @ c)))
       \<and> (in_int32 l
            \<and> (\<forall>v. GetActivityOptions.offset oc = Some v \<longrightarrow> in_int32 v) \<longrightarrow>
          (\<forall>msg. fst (get_activity a (Some oc) s) \<noteq> Inl (Error msg))
          \<and> get_activity a (Some oc) s =
              client_call (last (requests (snd (get_activity a (Some oc) s))))
                (initializeLimits s)
          \<and> path (last (requests (snd (get_activity a (Some oc) s)))) =
              ''/v1/proposals/get_activity''
          \<and> params (last (requests (snd (get_activity a (Some oc) s)))) ''limit'' =
              Some (Int32 l))
       \<and> (\<not> in_int32 l \<longrightarrow>
          (\<exists>msg. get_activity a (Some oc) s =
             (Inl (Error msg), initializeLimits s))))
   \<and> (GetApproverProposalsOptions.limit ov = Some l
        \<and> maxProposalLimit (initializeLimits s) = Some l \<longrightarrow>
       (\<forall>c. fst (get_approver_proposals a (Some ov) s) \<noteq>
            Inl (Error (''Limit cannot exceed '' @ c)))
       \<and> (in_int32 l
            \<and> (\<forall>v. GetApproverProposalsOptions.offset ov = Some v \<longrightarrow> in_int32 v) \<longrightarrow>
          (\<forall>msg. fst (get_approver_proposals a (Some ov) s) \<noteq> Inl (Error msg))
          \<and> get_approver_proposals a (Some ov) s =
              client_call (last (requests (snd (get_approver_proposals a (Some ov) s))))
                (initializeLimits s)
          \<and> path (last (requests (snd (get_approver_proposals a (Some ov) s)))) =
              ''/v1/proposals/get_approver_proposals''
          \<and> params (last (requests (snd (get_approver_proposals a (Some ov) s)))) ''limit'' =
              Some (Int32 l))
       \<and> (\<not> in_int32 l \<longrightarrow>
          (\<exists>msg. get_approver_proposals a (Some ov) s =
             (Inl (Error msg), initializeLimits s))))
   \<and> (SearchProposalsOptions.limit os = Some l
        \<and> maxProposalLimit (initializeLimits s) = Some l \<longrightarrow>
       (\<forall>c. fst (search_proposals q (Some os) s) \<noteq>
            Inl (Error (''Limit cannot exceed '' @ c)))
       \<and> (in_int32 l
            \<and> (\<forall>v. SearchProposalsOptions.offset os = Some v \<longrightarrow> in_int32 v) \<longrightarrow>
          (\<forall>msg. fst (search_proposals q (Some os) s) \<noteq> Inl (Error msg))
          \<and> search_proposals q (Some os) s =
              client_call (last (requests (snd (search_proposals q (Some os) s))))
                (initializeLimits s)
          \<and> path (last (requests (snd (search_proposals q (Some os) s)))) =
              ''/v1/proposals/search_proposals''
          \<and> params (last (requests (snd (search_proposals q (Some os) s)))) ''limit'' =
              Some (Int32 l))
       \<and> (\<not> in_int32 l \<longrightarrow>
          (\<exists>msg. search_proposals q (Some os) s =
             (Inl (Error msg), initializeLimits s))))"
  (is "?c0 \<and> ?c1 \<and> ?c2 \<and> ?c3 \<and> ?c4 \<and> ?c5 \<and> ?c6")
proof -
  have ng: "\<And>c. c = Some l \<Longrightarrow> \<not> greater_than l c"
    by (simp add: greater_than_def)
  have c0: ?c0 (is "?H \<longrightarrow> ?A \<and> ?B \<and> ?C")
  proof
    assume ?H
    then have given: "GetProposalHistoryOptions.limit oh = Some l"
      and no: "\<not> greater_than l (maxProposalLimit (initializeLimits s))"
      by (simp_all add: ng)
    have ?A
      using get_proposal_history_no_limit_error [OF given no] by blast
    moreover have ?B
      using get_proposal_history_accepts [OF given no] get_proposal_history_no_Error [OF given no]
      by blast
    moreover have ?C
      using get_proposal_history_limit_out_of_range [OF given no] by blast
    ultimately show "?A \<and> ?B \<and> ?C" by blast
  qed
  have c1: ?c1 (is "?H \<longrightarrow> ?A \<and> ?B \<and> ?C")
  proof
    assume ?H
    then have given: "GetProposalsOptions.limit ol = Some l"
      and no: "\<not> greater_than l (maxProposalLimit (initializeLimits s))"
      by (simp_all add: ng)
    have ?A
      using get_proposals_no_limit_error [OF given no] by blast
    moreover have ?B
      using get_proposals_accepts [OF given no] get_proposals_no_Error [OF given no]
      by blast
    moreover have ?C
      using get_proposals_limit_out_of_range [OF given no] by blast
    ultimately show "?A \<and> ?B \<and> ?C" by blast
  qed
  have c2: ?c2 (is "?H \<longrightarrow> ?A \<and> ?B \<and> ?C")
  proof
    assume ?H
    then have given: "GetActiveOptions.limit oa = Some l"
      and no: "\<not> greater_than l (maxProposalLimit (initializeLimits s))"
      by (simp_all add: ng)
    have ?A
      using get_active_no_limit_error [OF given no] by blast
    moreover have ?B
      using get_active_accepts [OF given no] get_active_no_Error [OF given no]
      by blast
    moreover have ?C
      using get_active_limit_out_of_range [OF given no] by blast
    ultimately show "?A \<and> ?B \<and> ?C" by blast
  qed
  have c3: ?c3 (is "?H \<longrightarrow> ?A \<and> ?B \<and> ?C")
  proof
    assume ?H
    then have given: "GetApprovalsOptions.limit ot = Some l"
      and no: "\<not> greater_than l (maxApprovalLimit (initializeLimits s))"
      by (simp_all add: ng)
    have ?A
      using get_approvals_no_limit_error [OF given no] by blast
    moreover have ?B
      using get_approvals_accepts [OF given no] get_approvals_no_Error [OF given no]
      by blast
    moreover have ?C
      using get_approvals_limit_out_of_range [OF given no] by blast
    ultimately show "?A \<and> ?B \<and> ?C" by blast
  qed
  have c4: ?c4 (is "?H \<longrightarrow> ?A \<and> ?B \<and> ?C")
  proof
    assume ?H
    then have given: "GetActivityOptions.limit oc = Some l"
      and no: "\<not> greater_than l (maxProposalLimit (initializeLimits s))"
      by (simp_all add: ng)
    have ?A
      using get_activity_no_limit_error [OF given no] by blast
    moreover have ?B
      using get_activity_accepts [OF given no] get_activity_no_Error [OF given no]
      by blast
    moreover have ?C
      using get_activity_limit_out_of_range [OF given no] by blast
    ultimately show "?A \<and> ?B \<and> ?C" by blast
  qed
  have c5: ?c5 (is "?H \<longrightarrow> ?A \<and> ?B \<and> ?C")
  proof
    assume ?H
    then have given: "GetApproverProposalsOptions.limit ov = Some l"
      and no: "\<not> greater_than l (maxProposalLimit (initializeLimits s))"
      by (simp_all add: ng)
    have ?A
      using get_approver_proposals_no_limit_error [OF given no] by blast
    moreover have ?B
      using get_approver_proposals_accepts [OF given no] get_approver_proposals_no_Error [OF given no]
      by blast
    moreover have ?C
      using get_approver_proposals_limit_out_of_range [OF given no] by blast
    ultimately show "?A \<and> ?B \<and> ?C" by blast
  qed
  have c6: ?c6 (is "?H \<longrightarrow> ?A \<and> ?B \<and> ?C")
  proof
    assume ?H
    then have given: "SearchProposalsOptions.limit os = Some l"
      and no: "\<not> greater_than l (maxProposalLimit (initializeLimits s))"
      by (simp_all add: ng)
    have ?A
      using search_proposals_no_limit_error [OF given no] by blast
    moreover have ?B
      using search_proposals_accepts [OF given no] search_proposals_no_Error [OF given no]
      by blast
    moreover have ?C
      using search_proposals_limit_out_of_range [OF given no] by blast
    ultimately show "?A \<and> ?B \<and> ?C" by blast
  qed
  from c0 c1 c2 c3 c4 c5 c6 show ?thesis by blast
qed

theorem limit_equal_to_ceiling_is_sent_witness:
  "fst (get_proposals (Some (proposals_limit 20)) (constructor failing None)) =
     Inl (Transport ''Network error'')
   \<and> requests (snd (get_proposals (Some (proposals_limit 20)) (constructor failing None))) =
       [\<lparr>path = ''/v1/proposals/get_status'', params = Map.empty\<rparr>,
        \<lparr>path = ''/v1/proposals/get_proposals'',
          params = [''limit'' \<mapsto> Int32 20]\<rparr>]
   \<and> params (last (requests (snd
         (get_proposals (Some (proposals_limit 20)) (constructor failing None)))))
       ''limit'' = Some (Int32 20)"
proof -
  have p: "maxProposalLimit (initializeLimits (constructor failing None)) = Some 20"
    by (simp add: constructor_def failing_def initializeLimits_def get_status_def
        client_call_def Let_def)
  have r: "requests (snd (get_proposals (Some (proposals_limit 20)) (constructor failing None))) =
       [\<lparr>path = ''/v1/proposals/get_status'', params = Map.empty\<rparr>,
        \<lparr>path = ''/v1/proposals/get_proposals'',
          params = [''limit'' \<mapsto> Int32 20]\<rparr>]"
    and f: "fst (get_proposals (Some (proposals_limit 20)) (constructor failing None)) =
       Inl (Transport ''Network error'')"
    by (simp_all add: get_proposals_def greater_than_def Int32_from_def
        proposals_limit_def approvals_limit_def proposals_unfiltered_def
        constructor_def failing_def initializeLimits_def get_status_def
        client_call_def Let_def)
  have k: "GetProposalsOptions.limit (proposals_limit 20) = Some 20
      \<and> maxProposalLimit (initializeLimits (constructor failing None)) = Some 20"
    and i: "in_int32 20
      \<and> (\<forall>v. GetProposalsOptions.offset (proposals_limit 20) = Some v \<longrightarrow> in_int32 v)"
    by (simp_all add: p in_int32_def
        proposals_limit_def approvals_limit_def proposals_unfiltered_def)
  have "params (last (requests (snd
         (get_proposals (Some (proposals_limit 20)) (constructor failing None)))))
       ''limit'' = Some (Int32 20)"
    using k i limit_equal_to_ceiling_is_sent [where l = 20 and s = "(constructor failing None)"
        and ol = "(proposals_limit 20)"]
    by blast
  with r f show ?thesis by simp
qed

text \<open>
  Without the range of the limit the second part fails: a client constructed with the
  proposal ceiling 2147483648 and asked for that limit raises no limit error, but the
  conversion of the limit to a 32-bit integer throws, and no request is sent.
\<close>

theorem limit_equal_to_ceiling_overflow:
  "maxProposalLimit (initializeLimits
     (constructor failing
       (Some \<lparr>MsigsClientOptions.maxProposalLimit = Some 2147483648,
              MsigsClientOptions.maxApprovalLimit = Some 100\<rparr>))) = Some 2147483648
   \<and> fst (get_proposals (Some (proposals_limit 2147483648))
     (constructor failing
       (Some \<lparr>MsigsClientOptions.maxProposalLimit = Some 2147483648,
              MsigsClientOptions.maxApprovalLimit = Some 100\<rparr>))) =
     Inl (Error ''Number 2147483648 overflows int32'')
   \<and> requests (snd (get_proposals (Some (proposals_limit 2147483648))
     (constructor failing
       (Some \<lparr>MsigsClientOptions.maxProposalLimit = Some 2147483648,
              MsigsClientOptions.maxApprovalLimit = Some 100\<rparr>)))) = []"
  by (simp add: get_proposals_def greater_than_def Int32_from_def string_of_number_def
      digit_def proposals_limit_def constructor_def initializeLimits_def Let_def)

section \<open>Parameters of a call without optional filters\<close>

text \<open>
  C7. For every operation: called without an options object, or with one in which no optional
  field is set, it hands the transport exactly one request, to its own endpoint, and the
  parameters of that request are the required identifiers and nothing else: no status, limit,
  offset or other optional key. For list proposals, list active proposals and the status call
  the parameters are empty.
\<close>

theorem no_filters_only_required_parameters:
  "((\<forall>x. og = Some x \<longrightarrow>
          GetProposalOptions.globalseq x = None
          \<and> GetProposalOptions.version_history x = None) \<longrightarrow>
       requests (snd (get_proposal p n og s)) =
         requests s @
           [\<lparr>path = ''/v1/proposals/get_proposal'',
             params = [''proposer'' \<mapsto> Name_from p, ''proposal_name'' \<mapsto> Name_from n]\<rparr>])
   \<and> ((\<forall>x. oh = Some x \<longrightarrow>
          GetProposalHistoryOptions.status x = None
          \<and> GetProposalHistoryOptions.limit x = None
          \<and> GetProposalHistoryOptions.offset x = None) \<longrightarrow>
       requests (snd (get_proposal_history p n oh s)) =
         requests s @
           [\<lparr>path = ''/v1/proposals/get_proposal_history'',
             params = [''proposer'' \<mapsto> Name_from p, ''proposal_name'' \<mapsto> Name_from n]\<rparr>])
   \<and> ((\<forall>x. ol = Some x \<longrightarrow>
          GetProposalsOptions.proposer x = None
          \<and> GetProposalsOptions.status x = None
          \<and> GetProposalsOptions.limit x = None
          \<and> GetProposalsOptions.offset x = None) \<longrightarrow>
       requests (snd (get_proposals ol s)) =
         requests s @
           [\<lparr>path = ''/v1/proposals/get_proposals'',
             params = Map.empty\<rparr>])
   \<and> ((\<forall>x. oa = Some x \<longrightarrow>
          GetActiveOptions.limit x = None
          \<and> GetActiveOptions.offset x = None
          \<and> GetActiveOptions.sort_by x = None) \<longrightarrow>
       requests (snd (get_active oa s)) =
         requests s @
           [\<lparr>path = ''/v1/proposals/get_active'',
             params = Map.empty\<rparr>])
   \<and> ((\<forall>x. ot = Some x \<longrightarrow>
          GetApprovalsOptions.globalseq x = None
          \<and> GetApprovalsOptions.limit x = None
          \<and> GetApprovalsOptions.offset x = None) \<longrightarrow>
       requests (snd (get_approvals p n ot s)) =
         requests s @
           [\<lparr>path = ''/v1/proposals/get_approvals'',
             params = [''proposer'' \<mapsto> Name_from p, ''proposal_name'' \<mapsto> Name_from n]\<rparr>])
   \<and> ((\<forall>x. oc = Some x \<longrightarrow>
          GetActivityOptions.limit x = None
          \<and> GetActivityOptions.offset x = None
          \<and> GetActivityOptions.action_type x = None) \<longrightarrow>
       requests (snd (get_activity a oc s)) =
         requests s @
           [\<lparr>path = ''/v1/proposals/get_activity'',
             params = [''account'' \<mapsto> Name_from a]\<rparr>])
   \<and> ((\<forall>x. ov = Some x \<longrightarrow>
          GetApproverProposalsOptions.status x = None
          \<and> GetApproverProposalsOptions.include_approved x = None
          \<and> GetApproverProposalsOptions.limit x = None
          \<and> GetApproverProposalsOptions.offset x = None) \<longrightarrow>
       requests (snd (get_approver_proposals a ov s)) =
         requests s @
           [\<lparr>path = ''/v1/proposals/get_approver_proposals'',
             params = [''approver'' \<mapsto> Name_from a]\<rparr>])
   \<and> ((\<forall>x. os = Some x \<longrightarrow>
          SearchProposalsOptions.status x = None
          \<and> SearchProposalsOptions.limit x = None
          \<and> SearchProposalsOptions.offset x = None) \<longrightarrow>
       requests (snd (search_proposals q os s)) =
         requests s @
           [\<lparr>path = ''/v1/proposals/search_proposals'',
             params = [''query'' \<mapsto> String q]\<rparr>])
   \<and> requests (snd (get_status s)) =
       requests s @ [\<lparr>path = ''/v1/proposals/get_status'', params = Map.empty\<rparr>]"
  (is "?c0 \<and> ?c1 \<and> ?c2 \<and> ?c3 \<and> ?c4 \<and> ?c5 \<and> ?c6 \<and> ?c7 \<and> ?st")
proof -
  have c0: ?c0
    using get_proposal_unfiltered by blast
  have c1: ?c1
    using get_proposal_history_unfiltered by blast
  have c2: ?c2
    using get_proposals_unfiltered by blast
  have c3: ?c3
    using get_active_unfiltered by blast
  have c4: ?c4
    using get_approvals_unfiltered by blast
  have c5: ?c5
    using get_activity_unfiltered by blast
  have c6: ?c6
    using get_approver_proposals_unfiltered by blast
  have c7: ?c7
    using search_proposals_unfiltered by blast
  have st: ?st
    by (simp add: get_status_snd)
  from c0 c1 c2 c3 c4 c5 c6 c7 st show ?thesis by blast
qed

theorem no_filters_only_required_parameters_witness:
  "requests (snd (get_proposal_history ''alice'' ''upgrade'' None (constructor failing None))) =
     [\<lparr>path = ''/v1/proposals/get_proposal_history'',
       params = [''proposer'' \<mapsto> Name_from ''alice'',
                 ''proposal_name'' \<mapsto> Name_from ''upgrade'']\<rparr>]
   \<and> dom (params (last (requests (snd
       (get_proposal_history ''alice'' ''upgrade'' None (constructor failing None)))))) =
     {''proposer'', ''proposal_name''}
   \<and> requests (snd (get_proposals (Some proposals_unfiltered) (constructor failing None))) =
     [\<lparr>path = ''/v1/proposals/get_proposals'', params = Map.empty\<rparr>]"
proof -
  have e: "requests (constructor failing None) = []"
    by (simp add: constructor_def)
  show ?thesis
    using no_filters_only_required_parameters [where s = "(constructor failing None)"
        and oh = None and p = "''alice''" and n = "''upgrade''"
        and ol = "Some proposals_unfiltered"]
    by (auto simp add: e proposals_limit_def approvals_limit_def proposals_unfiltered_def)
qed

end
